theory Spec2Isabelle
  imports Main
begin

section \<open>Diagnostics and exceptions\<close>

text \<open>
  The semantic analysis reports through an error list (\<open>m_errors\<close>) and through C++
  exceptions. An entry of the list carries its kind, the primary source location, the
  comment and the secondary source locations. Pointers to AST nodes are natural
  numbers: two nodes are the same node iff their pointers are equal.
\<close>

type_synonym ptr = nat

record SourceLocation =
  loc_start :: int
  loc_end :: int

datatype ErrorType = DeclarationError | TypeError | ParserError | Warning

record Error =
  errorType :: ErrorType
  sourceLocation :: "SourceLocation option"
  comment :: string
  secondarySourceLocation :: "(string \<times> SourceLocation) list"

text \<open>
  What a function can leave with instead of returning: the \<open>FatalError\<close> sentinel
  (the diagnostic is already in the list), an error object thrown with
  \<open>BOOST_THROW_EXCEPTION\<close>, a failed \<open>BOOST_ASSERT\<close>/\<open>solAssert\<close>, a failed
  \<open>dynamic_cast\<close> to a reference, or the dereference of a null pointer.
\<close>

datatype exn = FatalError | Thrown Error | AssertionFailed | BadCast | NullDereference

section \<open>Types.cpp: integer types\<close>

datatype Modifier = UNSIGNED | SIGNED | HASH | ADDRESS

record IntegerType =
  m_bits :: int
  m_modifier :: Modifier

text \<open>
  Modelled from the spec: the accessors \<open>isAddress\<close>, \<open>isHash\<close> and \<open>isSigned\<close> of
  \<open>IntegerType\<close> are declared in Types.h, which is not among the sources. The spec
  keeps signed integers, hashes and the address apart (the address is its own
  sub-lattice), so each accessor tests the modifier it is named after. The properties
  proved below do not look at \<open>isHash\<close> of an address.
\<close>

definition isAddress :: "IntegerType \<Rightarrow> bool" where
  "isAddress t = (m_modifier t = ADDRESS)"

definition isHash :: "IntegerType \<Rightarrow> bool" where
  "isHash t = (m_modifier t = HASH)"

definition isSigned :: "IntegerType \<Rightarrow> bool" where
  "isSigned t = (m_modifier t = SIGNED)"

text \<open>
  The constructor: the member initialisers store \<open>_bits\<close> and \<open>_modifier\<close>, then
  the assertion runs on the parameter \<open>_bits\<close>. The statement \<open>_bits = 160\<close> for
  an address assigns the parameter, not the member \<open>m_bits\<close>, so the object keeps the
  value passed in.
\<close>

definition IntegerType_assertion :: "int \<Rightarrow> bool" where
  "IntegerType_assertion bits = (bits > 0 \<and> bits \<le> 256 \<and> bits mod 8 = 0)"

definition IntegerType_members :: "int \<Rightarrow> Modifier \<Rightarrow> IntegerType" where
  "IntegerType_members bits modifier = \<lparr>m_bits = bits, m_modifier = modifier\<rparr>"

definition IntegerType_ctor :: "int \<Rightarrow> Modifier \<Rightarrow> exn + IntegerType" where
  "IntegerType_ctor bits modifier =
     (if \<not> IntegerType_assertion bits then Inl AssertionFailed
      else Inr (IntegerType_members bits modifier))"

datatype Type =
    Integer IntegerType
  | Bool
  | Contract ptr
  | Struct ptr

text \<open>
  Token.h is not among the sources. A token in the range \<open>Token::INT .. Token::HASH256\<close>
  is \<open>IntegerToken offset\<close> with \<open>offset = _typeToken - Token::INT\<close>; the tokens
  \<open>ADDRESS\<close> and \<open>BOOL\<close> are themselves; every other token is \<open>OtherToken\<close>.
\<close>

datatype Token = IntegerToken nat | ADDRESS_Token | BOOL_Token | OtherToken

definition fromElementaryTypeName :: "Token \<Rightarrow> exn + Type" where
  "fromElementaryTypeName tok =
     (case tok of
        IntegerToken offset \<Rightarrow>
          (let bits0 = int offset mod 5;
               bits = (if bits0 = 0 then 256 else 2 ^ nat (bits0 - 1) * 32);
               modifier = int offset div 5
           in map_sum id Integer
                (IntegerType_ctor bits
                   (if modifier = 0 then SIGNED else if modifier = 1 then UNSIGNED else HASH)))
      | ADDRESS_Token \<Rightarrow> map_sum id Integer (IntegerType_ctor 0 ADDRESS)
      | BOOL_Token \<Rightarrow> Inr Bool
      | OtherToken \<Rightarrow> Inl AssertionFailed)"

definition isImplicitlyConvertibleTo :: "IntegerType \<Rightarrow> Type \<Rightarrow> bool" where
  "isImplicitlyConvertibleTo this convertTo' =
     (case convertTo' of
        Integer convertTo \<Rightarrow>
          (if m_bits convertTo < m_bits this then False
           else if isAddress this then isAddress convertTo
           else if isHash this then isHash convertTo
           else if isSigned this then isSigned convertTo
           else \<not> isSigned convertTo \<or> m_bits convertTo > m_bits this)
      | _ \<Rightarrow> False)"

section \<open>NameAndTypeResolver.cpp: C3 linearization\<close>

text \<open>
  \<open>cThreeMerge\<close> works on a list of lists of pointers. Its three lambdas are the
  functions \<open>appearsOnlyAtHead\<close>, \<open>nextCandidate\<close> (a null pointer is \<open>None\<close>) and
  \<open>removeCandidate\<close>; the \<open>solAssert\<close> on an empty list is the exception
  \<open>AssertionFailed\<close>. \<open>remaining\<close> counts the elements still in the lists: it is the
  measure the main loop decreases.
\<close>

fun appearsOnlyAtHead :: "'a list list \<Rightarrow> 'a \<Rightarrow> exn + bool" where
  "appearsOnlyAtHead [] candidate = Inr True"
| "appearsOnlyAtHead (bases # rest) candidate =
     (if bases = [] then Inl AssertionFailed
      else if candidate \<in> set (tl bases) then Inr False
      else appearsOnlyAtHead rest candidate)"

fun nextCandidate_from :: "'a list list \<Rightarrow> 'a list list \<Rightarrow> exn + 'a option" where
  "nextCandidate_from toMerge [] = Inr None"
| "nextCandidate_from toMerge (bases # rest) =
     (if bases = [] then Inl AssertionFailed
      else case appearsOnlyAtHead toMerge (hd bases) of
             Inl e \<Rightarrow> Inl e
           | Inr True \<Rightarrow> Inr (Some (hd bases))
           | Inr False \<Rightarrow> nextCandidate_from toMerge rest)"

definition nextCandidate :: "'a list list \<Rightarrow> exn + 'a option" where
  "nextCandidate toMerge = nextCandidate_from toMerge toMerge"

fun removeCandidate :: "'a \<Rightarrow> 'a list list \<Rightarrow> 'a list list" where
  "removeCandidate candidate [] = []"
| "removeCandidate candidate (bases # rest) =
     (let bases' = removeAll candidate bases
      in if bases' = [] then removeCandidate candidate rest
         else bases' # removeCandidate candidate rest)"

definition remaining :: "'a list list \<Rightarrow> nat" where
  "remaining toMerge = sum_list (map length toMerge)"

lemma nextCandidate_from_head:
  "nextCandidate_from toMerge bs = Inr (Some c) \<Longrightarrow> \<exists>b \<in> set bs. b \<noteq> [] \<and> hd b = c"
  by (induction bs) (auto split: if_splits sum.splits bool.splits)

lemma nextCandidate_head:
  "nextCandidate toMerge = Inr (Some c) \<Longrightarrow> \<exists>b \<in> set toMerge. b \<noteq> [] \<and> hd b = c"
  unfolding nextCandidate_def by (rule nextCandidate_from_head)

lemma appearsOnlyAtHead_True:
  "appearsOnlyAtHead toMerge c = Inr True \<Longrightarrow> \<forall>b \<in> set toMerge. b \<noteq> [] \<and> c \<notin> set (tl b)"
  by (induction toMerge) (auto split: if_splits)

lemma nextCandidate_from_tails:
  "nextCandidate_from toMerge bs = Inr (Some c) \<Longrightarrow> appearsOnlyAtHead toMerge c = Inr True"
  by (induction bs) (auto split: if_splits sum.splits bool.splits)

lemma nextCandidate_tails:
  "nextCandidate toMerge = Inr (Some c) \<Longrightarrow> \<forall>b \<in> set toMerge. b \<noteq> [] \<and> c \<notin> set (tl b)"
  unfolding nextCandidate_def
  by (blast dest: nextCandidate_from_tails appearsOnlyAtHead_True)

lemma removeCandidate_eq:
  "removeCandidate c toMerge = filter (\<lambda>b. b \<noteq> []) (map (removeAll c) toMerge)"
  by (induction toMerge) (simp_all add: Let_def)

lemma length_removeAll_le: "length (removeAll c b) \<le> length b"
  by (induction b) (auto intro: le_SucI)

lemma length_removeAll_lt: "c \<in> set b \<Longrightarrow> length (removeAll c b) < length b"
  by (induction b) (auto simp: less_Suc_eq_le length_removeAll_le)

lemma remaining_removeCandidate_le:
  "remaining (removeCandidate c toMerge) \<le> remaining toMerge"
  by (induction toMerge)
    (auto simp: remaining_def Let_def intro: add_mono length_removeAll_le trans_le_add2)

lemma remaining_removeCandidate_less:
  "b \<in> set toMerge \<Longrightarrow> c \<in> set b \<Longrightarrow> remaining (removeCandidate c toMerge) < remaining toMerge"
proof (induction toMerge)
  case Nil
  then show ?case by simp
next
  case (Cons a toMerge)
  show ?case
  proof (cases "c \<in> set a")
    case True
    from length_removeAll_lt [OF True] remaining_removeCandidate_le [of c toMerge]
    show ?thesis by (auto simp: remaining_def Let_def)
  next
    case False
    with Cons.prems have "b \<in> set toMerge" by auto
    from Cons.IH [OF this Cons.prems(2)] False
    show ?thesis by (simp add: remaining_def Let_def)
  qed
qed

lemma nextCandidate_decreases:
  "nextCandidate toMerge = Inr (Some c) \<Longrightarrow> remaining (removeCandidate c toMerge) < remaining toMerge"
proof -
  assume "nextCandidate toMerge = Inr (Some c)"
  then obtain b where "b \<in> set toMerge" "b \<noteq> []" "hd b = c"
    by (blast dest: nextCandidate_head)
  then have "c \<in> set b" by (cases b) auto
  with \<open>b \<in> set toMerge\<close> show ?thesis by (rule remaining_removeCandidate_less)
qed

function cThreeMerge_loop :: "'a list list \<Rightarrow> 'a list \<Rightarrow> exn + 'a list" where
  "cThreeMerge_loop toMerge result =
     (if toMerge = [] then Inr result
      else case nextCandidate toMerge of
             Inl e \<Rightarrow> Inl e
           | Inr None \<Rightarrow> Inr []
           | Inr (Some candidate) \<Rightarrow>
               cThreeMerge_loop (removeCandidate candidate toMerge) (result @ [candidate]))"
  by pat_completeness auto
termination
  by (relation "measure (\<lambda>(toMerge, result). remaining toMerge)")
    (auto dest: nextCandidate_decreases)

declare cThreeMerge_loop.simps [simp del]

definition cThreeMerge :: "'a list list \<Rightarrow> exn + 'a list" where
  "cThreeMerge toMerge = cThreeMerge_loop (filter (\<lambda>bases. bases \<noteq> []) toMerge) []"

text \<open>
  \<open>linearizeBaseContracts\<close>. The AST maps the pointer of a declaration to the contract
  definition it is, or to \<open>None\<close> for any other declaration, so that
  \<open>dynamic_cast<ContractDefinition const*>\<close> succeeds exactly on the former. A contract
  lists, for each of its inheritance specifiers, the identifier \<open>name()\<close> with the
  declaration the references resolver has bound it to. The annotations the resolver
  writes and the error list are the state. The list \<open>input\<close> of the source is kept as
  the lists pushed to its front and its last element \<open>input.back()\<close>.
\<close>

definition createTypeError :: "SourceLocation \<Rightarrow> string \<Rightarrow> Error" where
  "createTypeError loc description =
     \<lparr>errorType = TypeError, sourceLocation = Some loc, comment = description,
      secondarySourceLocation = []\<rparr>"

record Identifier =
  id_location :: SourceLocation
  referencedDeclaration :: "ptr option"
  contractScope :: "ptr option"

record ContractDefinition =
  contract_location :: SourceLocation
  baseContracts :: "Identifier list"

type_synonym AST = "ptr \<Rightarrow> ContractDefinition option"

definition dynamic_cast_ContractDefinition :: "AST \<Rightarrow> ptr option \<Rightarrow> ptr option" where
  "dynamic_cast_ContractDefinition ast declaration =
     (case declaration of
        None \<Rightarrow> None
      | Some p \<Rightarrow> (case ast p of None \<Rightarrow> None | Some _ \<Rightarrow> Some p))"

record ContractDefinitionAnnotation =
  linearizedBaseContracts :: "ptr list"
  contractDependencies :: "ptr set"
  isFullyImplemented :: bool

record NameAndTypeResolver =
  m_errors :: "Error list"
  annotation :: "ptr \<Rightarrow> ContractDefinitionAnnotation"

definition reportFatalTypeError ::
  "Error \<Rightarrow> NameAndTypeResolver \<Rightarrow> (exn + 'a) \<times> NameAndTypeResolver" where
  "reportFatalTypeError e st = (Inl FatalError, st\<lparr>m_errors := m_errors st @ [e]\<rparr>)"

fun linearizationInput ::
  "AST \<Rightarrow> NameAndTypeResolver \<Rightarrow> Identifier list \<Rightarrow> ptr list list \<Rightarrow> ptr list \<Rightarrow>
   (exn + ptr list list \<times> ptr list) \<times> NameAndTypeResolver" where
  "linearizationInput ast st [] frontLists backList = (Inr (frontLists, backList), st)"
| "linearizationInput ast st (baseName # rest) frontLists backList =
     (case dynamic_cast_ContractDefinition ast (referencedDeclaration baseName) of
        None \<Rightarrow> reportFatalTypeError (createTypeError (id_location baseName) ''Contract expected.'') st
      | Some base \<Rightarrow>
          (let basesBases = linearizedBaseContracts (annotation st base)
           in if basesBases = []
              then reportFatalTypeError
                     (createTypeError (id_location baseName)
                        ''Definition of base has to precede definition of derived contract'') st
              else linearizationInput ast st rest (basesBases # frontLists) (base # backList)))"

definition linearizeBaseContracts ::
  "AST \<Rightarrow> ptr \<Rightarrow> NameAndTypeResolver \<Rightarrow> (exn + unit) \<times> NameAndTypeResolver" where
  "linearizeBaseContracts ast contract st =
     (case ast contract of
        None \<Rightarrow> (Inl BadCast, st)
      | Some def \<Rightarrow>
          (case linearizationInput ast st (baseContracts def) [] [] of
             (Inl e, st') \<Rightarrow> (Inl e, st')
           | (Inr (frontLists, backList), st') \<Rightarrow>
               (case cThreeMerge (frontLists @ [contract # backList]) of
                  Inl e \<Rightarrow> (Inl e, st')
                | Inr result \<Rightarrow>
                    if result = []
                    then reportFatalTypeError
                           (createTypeError (contract_location def)
                              ''Linearization of inheritance graph impossible'') st'
                    else (Inr (),
                          st'\<lparr>annotation := (annotation st')
                                (contract := (annotation st' contract)
                                   \<lparr>linearizedBaseContracts := result,
                                    contractDependencies :=
                                      contractDependencies (annotation st' contract) \<union> set (tl result)\<rparr>)\<rparr>))))"

fun precedes :: "'a \<Rightarrow> 'a \<Rightarrow> 'a list \<Rightarrow> bool" where
  "precedes x y [] = False"
| "precedes x y (z # zs) = (if z = x then y \<in> set zs else precedes x y zs)"

text \<open>
  The notions the linearization property is stated with: the inheritance edges of a
  contract (the declarations its inheritance specifiers refer to), a linearization that
  is well formed, a merge state without a candidate, and the merge states the main loop
  passes through; a base name that is bound to a contract with a linearization; and the
  invariant of the annotations, that every linearization stored so far is well formed.
  The invariant holds before any contract is linearized, when every list is empty.
\<close>

definition directBases :: "AST \<Rightarrow> ptr \<Rightarrow> ptr list" where
  "directBases ast d =
     (case ast d of None \<Rightarrow> [] | Some def \<Rightarrow> List.map_filter referencedDeclaration (baseContracts def))"

definition linearized :: "AST \<Rightarrow> NameAndTypeResolver \<Rightarrow> ptr \<Rightarrow> bool" where
  "linearized ast st c \<longleftrightarrow>
     (let l = linearizedBaseContracts (annotation st c)
      in l \<noteq> [] \<and> hd l = c \<and> distinct l
         \<and> (\<forall>d \<in> set l. \<forall>b \<in> set (directBases ast d). precedes d b l))"

definition noCandidate :: "'a list list \<Rightarrow> bool" where
  "noCandidate toMerge \<longleftrightarrow> (\<forall>b \<in> set toMerge. \<exists>b' \<in> set toMerge. hd b \<in> set (tl b'))"

inductive mergeReaches :: "'a list list \<Rightarrow> 'a list list \<Rightarrow> bool" where
  start: "mergeReaches toMerge toMerge"
| step: "nextCandidate toMerge = Inr (Some c) \<Longrightarrow> mergeReaches (removeCandidate c toMerge) toMerge'
         \<Longrightarrow> mergeReaches toMerge toMerge'"

definition baseResolved :: "AST \<Rightarrow> NameAndTypeResolver \<Rightarrow> Identifier \<Rightarrow> bool" where
  "baseResolved ast st baseName \<longleftrightarrow>
     (\<exists>b. referencedDeclaration baseName = Some b \<and> ast b \<noteq> None
        \<and> linearizedBaseContracts (annotation st b) \<noteq> [])"

definition linearizationInvariant :: "AST \<Rightarrow> NameAndTypeResolver \<Rightarrow> bool" where
  "linearizationInvariant ast st \<longleftrightarrow>
     (\<forall>b. linearizedBaseContracts (annotation st b) \<noteq> [] \<longrightarrow> linearized ast st b)"

definition mergeInput :: "AST \<Rightarrow> NameAndTypeResolver \<Rightarrow> ptr \<Rightarrow> ptr list list" where
  "mergeInput ast st c =
     (let bases = directBases ast c
      in rev (map (\<lambda>b. linearizedBaseContracts (annotation st b)) bases) @ [c # rev bases])"

text \<open>
  The invariant of the main loop for one pair \<open>x\<close>, \<open>y\<close>: they are already placed in
  this order, or \<open>x\<close> is placed and \<open>y\<close> still waits in a list, or some list still
  holds \<open>x\<close> before \<open>y\<close>.
\<close>

definition ordered_so_far :: "'a \<Rightarrow> 'a \<Rightarrow> 'a list list \<Rightarrow> 'a list \<Rightarrow> bool" where
  "ordered_so_far x y toMerge result \<longleftrightarrow>
     precedes x y result
     \<or> (x \<in> set result \<and> y \<in> set (concat toMerge))
     \<or> (x \<notin> set result \<and> (\<exists>b \<in> set toMerge. precedes x y b))"

text \<open>
  An inheritance diamond to run the linearization on: contract 1 has no base, contracts
  2 and 3 derive from 1, and contract 4 derives from 2 and 3 (in this order). Contracts
  1 to 3 are already linearized. Contract 5 derives from 2 and then from 1, the base of
  2, which no linearization can respect. Contract 6 names as its base the declaration
  9, which is no contract. Contract 7 derives from contract 8, which is defined after
  it and has no linearization yet.
\<close>

definition diamond_ast :: AST where
  "diamond_ast p =
     (if p = 1 then Some \<lparr>contract_location = \<lparr>loc_start = 0, loc_end = 10\<rparr>, baseContracts = []\<rparr>
      else if p = 2 then Some \<lparr>contract_location = \<lparr>loc_start = 11, loc_end = 20\<rparr>,
        baseContracts = [\<lparr>id_location = \<lparr>loc_start = 15, loc_end = 16\<rparr>, referencedDeclaration = Some 1, contractScope = None\<rparr>]\<rparr>
      else if p = 3 then Some \<lparr>contract_location = \<lparr>loc_start = 21, loc_end = 30\<rparr>,
        baseContracts = [\<lparr>id_location = \<lparr>loc_start = 25, loc_end = 26\<rparr>, referencedDeclaration = Some 1, contractScope = None\<rparr>]\<rparr>
      else if p = 4 then Some \<lparr>contract_location = \<lparr>loc_start = 31, loc_end = 40\<rparr>,
        baseContracts = [\<lparr>id_location = \<lparr>loc_start = 35, loc_end = 36\<rparr>, referencedDeclaration = Some 2, contractScope = None\<rparr>,
                         \<lparr>id_location = \<lparr>loc_start = 37, loc_end = 38\<rparr>, referencedDeclaration = Some 3, contractScope = None\<rparr>]\<rparr>
      else if p = 5 then Some \<lparr>contract_location = \<lparr>loc_start = 41, loc_end = 50\<rparr>,
        baseContracts = [\<lparr>id_location = \<lparr>loc_start = 45, loc_end = 46\<rparr>, referencedDeclaration = Some 2, contractScope = None\<rparr>,
                         \<lparr>id_location = \<lparr>loc_start = 47, loc_end = 48\<rparr>, referencedDeclaration = Some 1, contractScope = None\<rparr>]\<rparr>
      else if p = 6 then Some \<lparr>contract_location = \<lparr>loc_start = 51, loc_end = 60\<rparr>,
        baseContracts = [\<lparr>id_location = \<lparr>loc_start = 55, loc_end = 56\<rparr>, referencedDeclaration = Some 9, contractScope = None\<rparr>]\<rparr>
      else if p = 7 then Some \<lparr>contract_location = \<lparr>loc_start = 61, loc_end = 70\<rparr>,
        baseContracts = [\<lparr>id_location = \<lparr>loc_start = 65, loc_end = 66\<rparr>, referencedDeclaration = Some 8, contractScope = None\<rparr>]\<rparr>
      else if p = 8 then Some \<lparr>contract_location = \<lparr>loc_start = 71, loc_end = 80\<rparr>, baseContracts = []\<rparr>
      else None)"

definition diamond_state :: NameAndTypeResolver where
  "diamond_state =
     \<lparr>m_errors = [],
      annotation = (\<lambda>p. \<lparr>linearizedBaseContracts =
                             (if p = 1 then [1] else if p = 2 then [2, 1] else if p = 3 then [3, 1] else []),
                           contractDependencies =
                             (if p = 2 \<or> p = 3 then {1} else {}),
                           isFullyImplemented = True\<rparr>)\<rparr>"

section \<open>TypeChecker and AST.cpp: reporting\<close>

text \<open>
  The sources hold two generations of the type checks. The member functions
  \<open>checkTypeRequirements\<close> of AST.cpp throw the error object at the first violation.
  The visitor \<open>TypeChecker\<close> appends the error to \<open>m_errors\<close> and goes on
  (\<open>typeError\<close>), or appends it and throws \<open>FatalError\<close> (\<open>fatalTypeError\<close>); its
  functions take the error list and return it with the outcome.
\<close>

definition typeError :: "SourceLocation \<Rightarrow> string \<Rightarrow> Error list \<Rightarrow> Error list" where
  "typeError loc description errors = errors @ [createTypeError loc description]"

definition fatalTypeError ::
  "SourceLocation \<Rightarrow> string \<Rightarrow> Error list \<Rightarrow> (exn + 'a) \<times> Error list" where
  "fatalTypeError loc description errors = (Inl FatalError, typeError loc description errors)"

section \<open>Return statements\<close>

text \<open>
  An expression carries its location and the type its own visit has annotated
  (\<open>None\<close> before that; \<open>TypeChecker::type\<close> asserts that it is there). The types
  of this generation of the checker, their relation \<open>isImplicitlyConvertibleTo\<close> and
  \<open>toString\<close> live in a Types.cpp that is not among the sources: they are parameters
  (\<open>convertible\<close>, \<open>toString\<close>), as is the virtual call \<open>checkTypeRequirements\<close> on a
  sub-expression in AST.cpp, which yields the type of the expression or throws.
\<close>

record 'ty Expression =
  expr_location :: SourceLocation
  expr_type :: "'ty option"

record 'ty VariableDeclaration =
  var_location :: SourceLocation
  var_type :: "'ty option"

record 'ty Return =
  return_location :: SourceLocation
  return_expression :: "'ty Expression option"
  functionReturnParameters :: "'ty VariableDeclaration list option"

definition type_of :: "'ty option \<Rightarrow> exn + 'ty" where
  "type_of annotated = (case annotated of None \<Rightarrow> Inl AssertionFailed | Some t \<Rightarrow> Inr t)"

definition return_type_message :: "('ty \<Rightarrow> string) \<Rightarrow> 'ty \<Rightarrow> 'ty \<Rightarrow> string" where
  "return_type_message toString t expected =
     ''Return argument type '' @ toString t
     @ '' is not implicitly convertible to expected type (type of first return variable) ''
     @ toString expected @ ''.''"

definition endVisit_Return ::
  "('ty \<Rightarrow> 'ty \<Rightarrow> bool) \<Rightarrow> ('ty \<Rightarrow> string) \<Rightarrow> 'ty Return \<Rightarrow> Error list \<Rightarrow>
   (exn + unit) \<times> Error list" where
  "endVisit_Return convertible toString ret errors =
     (case return_expression ret of
        None \<Rightarrow> (Inr (), errors)
      | Some expression \<Rightarrow>
          (case functionReturnParameters ret of
             None \<Rightarrow> (Inr (), typeError (return_location ret) ''Return arguments not allowed.'' errors)
           | Some params \<Rightarrow>
               if length params \<noteq> 1
               then (Inr (), typeError (return_location ret)
                       ''Different number of arguments in return statement than in returns declaration.''
                       errors)
               else (case type_of (var_type (hd params)) of
                       Inl x \<Rightarrow> (Inl x, errors)
                     | Inr expected \<Rightarrow>
                         (case type_of (expr_type expression) of
                            Inl x \<Rightarrow> (Inl x, errors)
                          | Inr t \<Rightarrow>
                              if \<not> convertible t expected
                              then (Inr (), typeError (expr_location expression)
                                      (return_type_message toString t expected) errors)
                              else (Inr (), errors)))))"

definition expected_type_message :: "('ty \<Rightarrow> string) \<Rightarrow> 'ty \<Rightarrow> 'ty \<Rightarrow> string" where
  "expected_type_message toString currentType expectedType =
     ''Type '' @ toString currentType @ '' is not implicitly convertible to expected type ''
     @ toString expectedType @ ''.''"

definition expectType ::
  "('ty \<Rightarrow> 'ty \<Rightarrow> bool) \<Rightarrow> ('ty \<Rightarrow> string) \<Rightarrow> ('ty Expression \<Rightarrow> exn + 'ty) \<Rightarrow>
   'ty Expression \<Rightarrow> 'ty \<Rightarrow> exn + unit" where
  "expectType convertible toString checkTypeRequirements expression expectedType =
     (case checkTypeRequirements expression of
        Inl x \<Rightarrow> Inl x
      | Inr currentType \<Rightarrow>
          if \<not> convertible currentType expectedType
          then Inl (Thrown (createTypeError (expr_location expression)
                 (expected_type_message toString currentType expectedType)))
          else Inr ())"

definition Return_checkTypeRequirements ::
  "('ty \<Rightarrow> 'ty \<Rightarrow> bool) \<Rightarrow> ('ty \<Rightarrow> string) \<Rightarrow> ('ty Expression \<Rightarrow> exn + 'ty) \<Rightarrow>
   'ty Return \<Rightarrow> exn + unit" where
  "Return_checkTypeRequirements convertible toString checkTypeRequirements ret =
     (case return_expression ret of
        None \<Rightarrow> Inr ()
      | Some expression \<Rightarrow>
          (case functionReturnParameters ret of
             None \<Rightarrow> Inl (Thrown (createTypeError (return_location ret) ''Return arguments not allowed.''))
           | Some params \<Rightarrow>
               if length params \<noteq> 1
               then Inl (Thrown (createTypeError (return_location ret)
                      ''Different number of arguments in return statement than in returns declaration.''))
               else (case var_type (hd params) of
                       None \<Rightarrow> Inl NullDereference
                     | Some expected \<Rightarrow>
                         expectType convertible toString checkTypeRequirements expression expected)))"

section \<open>New expressions\<close>

text \<open>
  The visit returns the contract whose creation function becomes the type of the
  expression. \<open>hasType\<close> tells, for a declaration that is not a contract, whether
  \<open>Declaration::type\<close> yields a type.
\<close>

record NewExpression =
  new_location :: SourceLocation
  contractName :: Identifier

definition abstract_message :: string where
  "abstract_message = ''Trying to create an instance of an abstract contract.''"

definition circular_message :: string where
  "circular_message =
     ''Circular reference for contract creation: cannot create instance of derived or same contract.''"

definition found_in :: "ptr list \<Rightarrow> ptr option \<Rightarrow> bool" where
  "found_in bases scopeContract = (case scopeContract of None \<Rightarrow> False | Some s \<Rightarrow> s \<in> set bases)"

definition endVisit_NewExpression ::
  "AST \<Rightarrow> (ptr \<Rightarrow> ContractDefinitionAnnotation) \<Rightarrow> NewExpression \<Rightarrow> Error list \<Rightarrow>
   (exn + ptr) \<times> Error list" where
  "endVisit_NewExpression ast annotations newExpression errors =
     (case referencedDeclaration (contractName newExpression) of
        None \<Rightarrow> (Inl AssertionFailed, errors)
      | Some declaration \<Rightarrow>
          (case dynamic_cast_ContractDefinition ast (Some declaration) of
             None \<Rightarrow> fatalTypeError (new_location newExpression) ''Identifier is not a contract.'' errors
           | Some contract \<Rightarrow>
               (let errors1 =
                      (if \<not> isFullyImplemented (annotations contract)
                       then typeError (new_location newExpression) abstract_message errors
                       else errors);
                    scopeContract = contractScope (contractName newExpression);
                    bases = linearizedBaseContracts (annotations contract)
                in if bases = [] then (Inl AssertionFailed, errors1)
                   else (Inr contract,
                         if found_in bases scopeContract
                         then typeError (new_location newExpression) circular_message errors1
                         else errors1))))"

definition Identifier_checkTypeRequirements :: "AST \<Rightarrow> (ptr \<Rightarrow> bool) \<Rightarrow> Identifier \<Rightarrow> exn + unit" where
  "Identifier_checkTypeRequirements ast hasType identifier =
     (case referencedDeclaration identifier of
        None \<Rightarrow> Inl (Thrown (createTypeError (id_location identifier)
                  ''Unable to determine overloaded type.''))
      | Some declaration \<Rightarrow>
          if ast declaration = None \<and> \<not> hasType declaration
          then Inl (Thrown (createTypeError (id_location identifier)
                 ''Declaration referenced before type could be determined.''))
          else Inr ())"

definition NewExpression_checkTypeRequirements ::
  "AST \<Rightarrow> (ptr \<Rightarrow> bool) \<Rightarrow> (ptr \<Rightarrow> ContractDefinitionAnnotation) \<Rightarrow> NewExpression \<Rightarrow> exn + ptr" where
  "NewExpression_checkTypeRequirements ast hasType annotations newExpression =
     (case Identifier_checkTypeRequirements ast hasType (contractName newExpression) of
        Inl x \<Rightarrow> Inl x
      | Inr _ \<Rightarrow>
          (case dynamic_cast_ContractDefinition ast (referencedDeclaration (contractName newExpression)) of
             None \<Rightarrow> Inl (Thrown (createTypeError (new_location newExpression)
                       ''Identifier is not a contract.''))
           | Some contract \<Rightarrow>
               if \<not> isFullyImplemented (annotations contract)
               then Inl (Thrown (createTypeError (new_location newExpression) abstract_message))
               else if found_in (linearizedBaseContracts (annotations contract))
                         (contractScope (contractName newExpression))
               then Inl (Thrown (createTypeError (new_location newExpression) circular_message))
               else Inr contract))"


section \<open>Index access\<close>

text \<open>
  The types as the index access reads them: an array has a data location, a kind
  (\<open>bytes\<close> and \<open>string\<close> are byte arrays, \<open>string\<close> is the string), an element type
  and a length (\<open>None\<close> when dynamically sized). \<open>accept\<close> is the visit of a
  sub-expression by the \<open>TypeChecker\<close>.
\<close>

datatype DataLocation = Storage | Memory | CallData

datatype ArrayKind = Ordinary | Bytes | String

datatype TypeC =
    IntegerC int
  | IntegerConstantC int
  | FixedBytesC nat
  | ArrayC DataLocation ArrayKind TypeC "nat option"
  | MappingC TypeC TypeC
  | TypeTypeC TypeC
  | OtherC string

definition literalValue :: "int \<Rightarrow> nat" where
  "literalValue v = nat (v mod 2 ^ 256)"

record IndexAccess =
  access_location :: SourceLocation
  baseExpression :: "TypeC Expression"
  indexExpression :: "TypeC Expression option"

record IndexAccessAnnotation =
  ia_type :: "TypeC option"
  ia_isLValue :: bool

definition bind_tc ::
  "(exn + 'a) \<times> Error list \<Rightarrow> ('a \<Rightarrow> Error list \<Rightarrow> (exn + 'b) \<times> Error list) \<Rightarrow>
   (exn + 'b) \<times> Error list" where
  "bind_tc r f = (case r of (Inl x, errors) \<Rightarrow> (Inl x, errors) | (Inr a, errors) \<Rightarrow> f a errors)"

definition typed_tc :: "'ty Expression \<Rightarrow> Error list \<Rightarrow> (exn + 'ty) \<times> Error list" where
  "typed_tc expression errors = (type_of (expr_type expression), errors)"

definition TypeChecker_expectType ::
  "('ty \<Rightarrow> 'ty \<Rightarrow> bool) \<Rightarrow> ('ty \<Rightarrow> string) \<Rightarrow>
   ('ty Expression \<Rightarrow> Error list \<Rightarrow> (exn + unit) \<times> Error list) \<Rightarrow>
   'ty Expression \<Rightarrow> 'ty \<Rightarrow> Error list \<Rightarrow> (exn + unit) \<times> Error list" where
  "TypeChecker_expectType convertible toString accept expression expectedType errors =
     bind_tc (accept expression errors) (\<lambda>_ errors.
     bind_tc (typed_tc expression errors) (\<lambda>t errors.
       if \<not> convertible t expectedType
       then (Inr (), typeError (expr_location expression)
               (expected_type_message toString t expectedType) errors)
       else (Inr (), errors)))"

definition index_type_message :: "(TypeC \<Rightarrow> string) \<Rightarrow> TypeC \<Rightarrow> string" where
  "index_type_message toString baseType =
     ''Indexed expression has to be a type, mapping or array (is '' @ toString baseType @ '')''"

definition visit_IndexAccess ::
  "(TypeC \<Rightarrow> TypeC \<Rightarrow> bool) \<Rightarrow> (TypeC \<Rightarrow> string) \<Rightarrow>
   (TypeC Expression \<Rightarrow> Error list \<Rightarrow> (exn + unit) \<times> Error list) \<Rightarrow>
   IndexAccess \<Rightarrow> Error list \<Rightarrow> (exn + IndexAccessAnnotation) \<times> Error list" where
  "visit_IndexAccess convertible toString accept access errors =
     bind_tc (accept (baseExpression access) errors) (\<lambda>_ errors.
     bind_tc (typed_tc (baseExpression access) errors) (\<lambda>baseType errors.
       case baseType of
         ArrayC location kind elementType len \<Rightarrow>
           bind_tc
             (case indexExpression access of
                None \<Rightarrow> (Inr (), typeError (access_location access)
                            ''Index expression cannot be omitted.'' errors)
              | Some index \<Rightarrow>
                  if kind = String
                  then accept index (typeError (access_location access)
                         ''Index access for string is not possible.'' errors)
                  else
                    bind_tc (TypeChecker_expectType convertible toString accept index
                               (IntegerC 256) errors) (\<lambda>_ errors.
                    bind_tc (typed_tc index errors) (\<lambda>indexType errors.
                      case indexType of
                        IntegerConstantC v \<Rightarrow>
                          (case len of
                             Some n \<Rightarrow>
                               if n \<le> literalValue v
                               then (Inr (), typeError (access_location access)
                                       ''Out of bounds array access.'' errors)
                               else (Inr (), errors)
                           | None \<Rightarrow> (Inr (), errors))
                      | _ \<Rightarrow> (Inr (), errors))))
             (\<lambda>_ errors.
                (Inr \<lparr>ia_type = Some elementType, ia_isLValue = (location \<noteq> CallData)\<rparr>, errors))
       | MappingC keyType valueType \<Rightarrow>
           bind_tc
             (case indexExpression access of
                None \<Rightarrow> (Inr (), typeError (access_location access)
                            ''Index expression cannot be omitted.'' errors)
              | Some index \<Rightarrow>
                  TypeChecker_expectType convertible toString accept index keyType errors)
             (\<lambda>_ errors. (Inr \<lparr>ia_type = Some valueType, ia_isLValue = True\<rparr>, errors))
       | TypeTypeC actualType \<Rightarrow>
           (case indexExpression access of
              None \<Rightarrow>
                (Inr \<lparr>ia_type = Some (TypeTypeC (ArrayC Memory Ordinary actualType None)),
                      ia_isLValue = False\<rparr>, errors)
            | Some index \<Rightarrow>
                bind_tc (accept index errors) (\<lambda>_ errors.
                bind_tc (typed_tc index errors) (\<lambda>indexType errors.
                  case indexType of
                    IntegerConstantC v \<Rightarrow>
                      (Inr \<lparr>ia_type = Some (TypeTypeC
                               (ArrayC Memory Ordinary actualType (Some (literalValue v)))),
                            ia_isLValue = False\<rparr>, errors)
                  | _ \<Rightarrow>
                      (Inr \<lparr>ia_type = None, ia_isLValue = False\<rparr>,
                       typeError (expr_location index) ''Integer constant expected.'' errors))))
       | _ \<Rightarrow>
           fatalTypeError (expr_location (baseExpression access))
             (index_type_message toString baseType) errors))"

definition throwTypeError :: "SourceLocation \<Rightarrow> string \<Rightarrow> exn + 'a" where
  "throwTypeError loc description = Inl (Thrown (createTypeError loc description))"

definition IndexAccess_checkTypeRequirements ::
  "(TypeC \<Rightarrow> TypeC \<Rightarrow> bool) \<Rightarrow> (TypeC \<Rightarrow> string) \<Rightarrow> (TypeC Expression \<Rightarrow> exn + TypeC) \<Rightarrow>
   IndexAccess \<Rightarrow> exn + IndexAccessAnnotation" where
  "IndexAccess_checkTypeRequirements convertible toString checkTypeRequirements access =
     (case checkTypeRequirements (baseExpression access) of
        Inl x \<Rightarrow> Inl x
      | Inr baseType \<Rightarrow>
          (case baseType of
             ArrayC location kind elementType len \<Rightarrow>
               (case indexExpression access of
                  None \<Rightarrow> throwTypeError (access_location access)
                             ''Index expression cannot be omitted.''
                | Some index \<Rightarrow>
                    if kind = String
                    then throwTypeError (access_location access)
                           ''Index access for string is not possible.''
                    else (case expectType convertible toString checkTypeRequirements index
                                 (IntegerC 256) of
                            Inl x \<Rightarrow> Inl x
                          | Inr _ \<Rightarrow>
                              Inr \<lparr>ia_type = Some (if kind \<noteq> Ordinary then FixedBytesC 1
                                                   else elementType),
                                   ia_isLValue = (location \<noteq> CallData)\<rparr>))
           | MappingC keyType valueType \<Rightarrow>
               (case indexExpression access of
                  None \<Rightarrow> throwTypeError (access_location access)
                             ''Index expression cannot be omitted.''
                | Some index \<Rightarrow>
                    (case expectType convertible toString checkTypeRequirements index keyType of
                       Inl x \<Rightarrow> Inl x
                     | Inr _ \<Rightarrow> Inr \<lparr>ia_type = Some valueType, ia_isLValue = True\<rparr>))
           | TypeTypeC actualType \<Rightarrow>
               (case indexExpression access of
                  None \<Rightarrow>
                    Inr \<lparr>ia_type = Some (TypeTypeC (ArrayC Memory Ordinary actualType None)),
                         ia_isLValue = False\<rparr>
                | Some index \<Rightarrow>
                    (case checkTypeRequirements index of
                       Inl x \<Rightarrow> Inl x
                     | Inr (IntegerConstantC v) \<Rightarrow>
                         Inr \<lparr>ia_type = Some (TypeTypeC
                                 (ArrayC Memory Ordinary actualType (Some (literalValue v)))),
                              ia_isLValue = False\<rparr>
                     | Inr _ \<Rightarrow> throwTypeError (expr_location index) ''Integer constant expected.''))
           | _ \<Rightarrow>
               throwTypeError (expr_location (baseExpression access))
                 (index_type_message toString baseType)))"

section \<open>Declaration registration\<close>

datatype DeclarationKind = FunctionDeclaration | ModifierDeclaration | OtherDeclaration

record Declaration =
  decl_node :: ptr
  decl_name :: string
  decl_location :: SourceLocation
  decl_kind :: DeclarationKind
  isVisibleInContract :: bool

record DeclarationContainer =
  enclosingDeclaration :: "ptr option"
  m_declarations :: "string \<Rightarrow> Declaration list"
  m_invisibleDeclarations :: "string \<Rightarrow> Declaration list"

text \<open>
  Modelled from the spec: DeclarationContainer.cpp is not among the sources. Two
  declarations of one scope may share a name only if both are functions, or both are
  modifiers, and neither is invisible in the contract; a declaration that may not share
  its name with one already in the scope conflicts with it. A declaration without a
  conflict is appended to the bucket of its name.
\<close>

definition mayShareName :: "Declaration \<Rightarrow> Declaration \<Rightarrow> bool" where
  "mayShareName d e \<longleftrightarrow>
     decl_kind d = decl_kind e \<and> decl_kind d \<noteq> OtherDeclaration
     \<and> isVisibleInContract d \<and> isVisibleInContract e"

definition conflictingDeclaration :: "DeclarationContainer \<Rightarrow> Declaration \<Rightarrow> Declaration option" where
  "conflictingDeclaration container declaration =
     find (\<lambda>e. \<not> mayShareName declaration e)
       (m_declarations container (decl_name declaration)
        @ m_invisibleDeclarations container (decl_name declaration))"

definition DeclarationContainer_registerDeclaration ::
  "DeclarationContainer \<Rightarrow> Declaration \<Rightarrow> bool \<Rightarrow> bool \<times> DeclarationContainer" where
  "DeclarationContainer_registerDeclaration container declaration invisible =
     (if conflictingDeclaration container declaration \<noteq> None then (False, container)
      else if invisible
      then (True, container\<lparr>m_invisibleDeclarations := (m_invisibleDeclarations container)
              (decl_name declaration :=
                 m_invisibleDeclarations container (decl_name declaration) @ [declaration])\<rparr>)
      else (True, container\<lparr>m_declarations := (m_declarations container)
              (decl_name declaration :=
                 m_declarations container (decl_name declaration) @ [declaration])\<rparr>))"

definition emptyContainer :: "ptr option \<Rightarrow> DeclarationContainer" where
  "emptyContainer enclosing =
     \<lparr>enclosingDeclaration = enclosing, m_declarations = (\<lambda>_. []),
      m_invisibleDeclarations = (\<lambda>_. [])\<rparr>"

text \<open>
  \<open>DeclarationRegistrationHelper\<close>: the scopes are a map from the node that opens the
  scope (\<open>None\<close> is the null pointer of the global scope) to its container;
  \<open>m_scopes[key]\<close> inserts an empty container for a key that is not there. The scope
  that \<open>setScope\<close> writes into a declaration is kept in \<open>declarationScope\<close>.
\<close>

record DeclarationRegistrationHelper =
  m_scopes :: "ptr option \<Rightarrow> DeclarationContainer option"
  m_currentScope :: "ptr option"
  registrationErrors :: "Error list"
  declarationScope :: "ptr \<Rightarrow> ptr option option"

definition scopeAt :: "DeclarationRegistrationHelper \<Rightarrow> ptr option \<Rightarrow> DeclarationContainer" where
  "scopeAt helper key =
     (case m_scopes helper key of None \<Rightarrow> emptyContainer None | Some container \<Rightarrow> container)"

definition declarationError ::
  "SourceLocation \<Rightarrow> string \<Rightarrow> SourceLocation \<Rightarrow> string \<Rightarrow> Error" where
  "declarationError sourceLoction description secondarySourceLocation' secondaryDescription =
     \<lparr>errorType = DeclarationError, sourceLocation = Some sourceLoction, comment = description,
      secondarySourceLocation = [(secondaryDescription, secondarySourceLocation')]\<rparr>"

definition enterNewSubScope ::
  "Declaration \<Rightarrow> DeclarationRegistrationHelper \<Rightarrow> (exn + unit) \<times> DeclarationRegistrationHelper" where
  "enterNewSubScope declaration helper =
     (let helper1 = helper\<lparr>m_scopes := (m_scopes helper)
                      (m_currentScope helper \<mapsto> scopeAt helper (m_currentScope helper))\<rparr>
      in if m_scopes helper1 (Some (decl_node declaration)) \<noteq> None
         then (Inl AssertionFailed, helper1)
         else (Inr (),
               helper1\<lparr>m_scopes := (m_scopes helper1)
                          (Some (decl_node declaration) \<mapsto> emptyContainer (m_currentScope helper)),
                        m_currentScope := Some (decl_node declaration)\<rparr>))"

definition registerDeclaration ::
  "Declaration \<Rightarrow> bool \<Rightarrow> DeclarationRegistrationHelper \<Rightarrow>
   (exn + unit) \<times> DeclarationRegistrationHelper" where
  "registerDeclaration declaration opensScope helper =
     (let current = m_currentScope helper;
          (registered, container) =
             DeclarationContainer_registerDeclaration (scopeAt helper current) declaration
               (\<not> isVisibleInContract declaration);
          helper1 = helper\<lparr>m_scopes := (m_scopes helper)(current \<mapsto> container)\<rparr>
      in if \<not> registered \<and> conflictingDeclaration container declaration = None
         then (Inl AssertionFailed, helper1)
         else
           (let helper2 =
                  (if \<not> registered
                   then (let conflicting = the (conflictingDeclaration container declaration);
                             (firstDeclarationLocation, secondDeclarationLocation) =
                               (if loc_start (decl_location declaration)
                                     < loc_start (decl_location conflicting)
                                then (decl_location declaration, decl_location conflicting)
                                else (decl_location conflicting, decl_location declaration))
                         in helper1\<lparr>registrationErrors := registrationErrors helper1 @
                              [declarationError secondDeclarationLocation
                                 ''Identifier already declared.''
                                 firstDeclarationLocation
                                 ''The previous declaration is here:'']\<rparr>)
                   else helper1);
                helper3 = helper2\<lparr>declarationScope := (declarationScope helper2)
                            (decl_node declaration \<mapsto> current)\<rparr>
            in if opensScope then enterNewSubScope declaration helper3 else (Inr (), helper3)))"

text \<open>A scope that holds a variable \<open>x\<close>, and a second declaration of \<open>x\<close>.\<close>

definition example_x :: "int \<Rightarrow> Declaration" where
  "example_x start =
     \<lparr>decl_node = nat start, decl_name = ''x'',
      decl_location = \<lparr>loc_start = start, loc_end = start + 6\<rparr>,
      decl_kind = OtherDeclaration, isVisibleInContract = True\<rparr>"

definition example_scope :: "int \<Rightarrow> DeclarationRegistrationHelper" where
  "example_scope start =
     \<lparr>m_scopes = [Some 1 \<mapsto> \<lparr>enclosingDeclaration = None,
                                 m_declarations = (\<lambda>n. if n = ''x'' then [example_x start] else []),
                                 m_invisibleDeclarations = (\<lambda>_. [])\<rparr>],
      m_currentScope = Some 1, registrationErrors = [], declarationScope = Map.empty\<rparr>"

section \<open>Struct recursion\<close>

text \<open>
  A member of a struct is followed by the recursion check only when the category of
  its type is \<open>Struct\<close>, that is when it holds a struct by value: its type name then
  refers to a struct definition. A mapping or an array is of another category, whatever
  it holds. The struct definitions of the AST are an association list from pointers to
  definitions, so that there are finitely many of them; a reference to a pointer that
  is no struct definition fails the \<open>dynamic_cast\<close>. The set \<open>parents\<close> grows with every
  call, which is the measure of the recursion.
\<close>

datatype MemberType = StructByValue ptr | OtherMemberType

record StructMember =
  member_location :: SourceLocation
  member_type :: MemberType
  canBeStored :: bool

record StructDefinition =
  struct_location :: SourceLocation
  members :: "StructMember list"

type_synonym Structs = "(ptr \<times> StructDefinition) list"

fun for_each :: "('a \<Rightarrow> exn + unit) \<Rightarrow> 'a list \<Rightarrow> exn + unit" where
  "for_each f [] = Inr ()"
| "for_each f (x # xs) = (case f x of Inl e \<Rightarrow> Inl e | Inr _ \<Rightarrow> for_each f xs)"

lemma for_each_cong [fundef_cong]:
  "xs = ys \<Longrightarrow> (\<And>x. x \<in> set ys \<Longrightarrow> f x = g x) \<Longrightarrow> for_each f xs = for_each g ys"
  by (induction ys arbitrary: xs) (auto split: sum.splits)

fun for_each_tc ::
  "('a \<Rightarrow> Error list \<Rightarrow> (exn + unit) \<times> Error list) \<Rightarrow> 'a list \<Rightarrow> Error list \<Rightarrow>
   (exn + unit) \<times> Error list" where
  "for_each_tc f [] errors = (Inr (), errors)"
| "for_each_tc f (x # xs) errors = bind_tc (f x errors) (\<lambda>_ errors'. for_each_tc f xs errors')"

lemma for_each_tc_cong [fundef_cong]:
  "xs = ys \<Longrightarrow> (\<And>x e. x \<in> set ys \<Longrightarrow> f x e = g x e) \<Longrightarrow> errors = errors' \<Longrightarrow>
   for_each_tc f xs errors = for_each_tc g ys errors'"
  by (induction ys arbitrary: xs errors errors') (auto simp: bind_tc_def split: sum.splits prod.splits)

definition recursive_struct :: "ErrorType \<Rightarrow> SourceLocation \<Rightarrow> Error" where
  "recursive_struct kind loc =
     \<lparr>errorType = kind, sourceLocation = Some loc, comment = ''Recursive struct definition.'',
      secondarySourceLocation = []\<rparr>"

lemma unvisited_decreases:
  assumes "map_of structs s = Some sd" and "s \<notin> parents"
  shows "card (fst ` set structs - insert s parents) < card (fst ` set structs - parents)"
proof -
  from assms(1) have "s \<in> fst ` set structs" by (metis map_of_SomeD fst_conv image_eqI)
  with assms(2) have "fst ` set structs - insert s parents \<subset> fst ` set structs - parents"
    by auto
  then show ?thesis by (simp add: psubset_card_mono)
qed

function checkRecursion_check :: "Structs \<Rightarrow> ptr \<Rightarrow> ptr set \<Rightarrow> exn + unit" where
  "checkRecursion_check structs struct parents =
     (case map_of structs struct of
        None \<Rightarrow> Inl BadCast
      | Some structDef \<Rightarrow>
          if struct \<in> parents
          then Inl (Thrown (recursive_struct ParserError (struct_location structDef)))
          else for_each
                 (\<lambda>member. case member_type member of
                    StructByValue referenced \<Rightarrow>
                      checkRecursion_check structs referenced (insert struct parents)
                  | OtherMemberType \<Rightarrow> Inr ())
                 (members structDef))"
  by pat_completeness auto
termination
  by (relation "measure (\<lambda>(structs, struct, parents). card (fst ` set structs - parents))")
    (auto intro: unvisited_decreases)

declare checkRecursion_check.simps [simp del]

definition checkRecursion :: "Structs \<Rightarrow> ptr \<Rightarrow> exn + unit" where
  "checkRecursion structs this = checkRecursion_check structs this {}"

function TypeChecker_check ::
  "Structs \<Rightarrow> ptr \<Rightarrow> ptr set \<Rightarrow> Error list \<Rightarrow> (exn + unit) \<times> Error list" where
  "TypeChecker_check structs struct parents errors =
     (case map_of structs struct of
        None \<Rightarrow> (Inl BadCast, errors)
      | Some structDef \<Rightarrow>
          if struct \<in> parents
          then fatalTypeError (struct_location structDef) ''Recursive struct definition.'' errors
          else for_each_tc
                 (\<lambda>member errors. case member_type member of
                    StructByValue referenced \<Rightarrow>
                      TypeChecker_check structs referenced (insert struct parents) errors
                  | OtherMemberType \<Rightarrow> (Inr (), errors))
                 (members structDef) errors)"
  by pat_completeness auto
termination
  by (relation "measure (\<lambda>(structs, struct, parents, errors). card (fst ` set structs - parents))")
    (auto intro: unvisited_decreases)

declare TypeChecker_check.simps [simp del]

definition visit_StructDefinition ::
  "(StructMember \<Rightarrow> Error list \<Rightarrow> (exn + unit) \<times> Error list) \<Rightarrow> Structs \<Rightarrow> ptr \<Rightarrow>
   Error list \<Rightarrow> (exn + unit) \<times> Error list" where
  "visit_StructDefinition accept structs struct errors =
     (case map_of structs struct of
        None \<Rightarrow> (Inl BadCast, errors)
      | Some structDef \<Rightarrow>
          bind_tc
            (for_each_tc
               (\<lambda>member errors.
                  if \<not> canBeStored member
                  then (Inr (), typeError (member_location member)
                          ''Type cannot be used in struct.'' errors)
                  else (Inr (), errors))
               (members structDef) errors) (\<lambda>_ errors.
          bind_tc (TypeChecker_check structs struct {} errors) (\<lambda>_ errors.
            for_each_tc accept (members structDef) errors)))"


text \<open>
  The notions the property of the recursion check is stated with: the edge from a
  struct to a struct it holds by value, struct definitions all of whose by-value
  references are defined, the errors of the members that cannot be stored, and the
  error list after a thrown error has been reported as a fatal type error instead.
\<close>

definition struct_edge :: "Structs \<Rightarrow> ptr \<Rightarrow> ptr \<Rightarrow> bool" where
  "struct_edge structs s t \<longleftrightarrow>
     (\<exists>structDef. map_of structs s = Some structDef
        \<and> (\<exists>member \<in> set (members structDef). member_type member = StructByValue t))"

definition closed_structs :: "Structs \<Rightarrow> bool" where
  "closed_structs structs \<longleftrightarrow>
     (\<forall>structDef \<in> snd ` set structs. \<forall>member \<in> set (members structDef).
        case member_type member of
          StructByValue t \<Rightarrow> t \<in> fst ` set structs
        | OtherMemberType \<Rightarrow> True)"

definition as_fatal :: "exn + unit \<Rightarrow> Error list \<Rightarrow> (exn + unit) \<times> Error list" where
  "as_fatal r errors =
     (case r of
        Inr _ \<Rightarrow> (Inr (), errors)
      | Inl (Thrown e) \<Rightarrow> (Inl FatalError, errors @ [e\<lparr>errorType := TypeError\<rparr>])
      | Inl x \<Rightarrow> (Inl x, errors))"

definition member_errors :: "StructMember list \<Rightarrow> Error list" where
  "member_errors ms =
     map (\<lambda>member. createTypeError (member_location member) ''Type cannot be used in struct.'')
       (filter (\<lambda>member. \<not> canBeStored member) ms)"

section \<open>Interface functions and selector collisions\<close>

text \<open>
  \<open>ContractDefinition::interfaceFunctionList\<close> walks the linearized base contracts, here
  the list of their members. The external signature of a function or of the accessor
  of a state variable is computed by \<open>FunctionType::externalSignature\<close>, which is not among
  the sources: a declaration carries its signature. \<open>hash4\<close> is
  \<open>FixedHash<4>(dev::sha3(signature))\<close>, a parameter. An entry of the list pairs the
  selector with the function type built from a function or from a state variable.
  The list is computed once and cached; the model computes it. State variables have
  their type by then, so that the \<open>solAssert\<close> on \<open>v->type()\<close> holds.
\<close>

record FunctionDefinition =
  function_name :: string
  function_isPartOfExternalInterface :: bool
  function_externalSignature :: string

record StateVariable =
  variable_name :: string
  variable_isPartOfExternalInterface :: bool
  variable_externalSignature :: string

record ContractMembers =
  definedFunctions :: "FunctionDefinition list"
  stateVariables :: "StateVariable list"

datatype FunctionType = OfFunction FunctionDefinition | OfVariable StateVariable

fun externalSignature :: "FunctionType \<Rightarrow> string" where
  "externalSignature (OfFunction f) = function_externalSignature f"
| "externalSignature (OfVariable v) = variable_externalSignature v"

record 'h InterfaceFunctions =
  functionsSeen :: "string set"
  signaturesSeen :: "string set"
  m_interfaceFunctionList :: "('h \<times> FunctionType) list"

fun addFunctions ::
  "(string \<Rightarrow> 'h) \<Rightarrow> FunctionDefinition list \<Rightarrow> 'h InterfaceFunctions \<Rightarrow> 'h InterfaceFunctions" where
  "addFunctions hash4 [] st = st"
| "addFunctions hash4 (f # fs) st =
     (if \<not> function_isPartOfExternalInterface f then addFunctions hash4 fs st
      else let functionSignature = function_externalSignature f
           in if functionSignature \<notin> signaturesSeen st
              then addFunctions hash4 fs
                     \<lparr>functionsSeen = insert (function_name f) (functionsSeen st),
                      signaturesSeen = insert functionSignature (signaturesSeen st),
                      m_interfaceFunctionList = m_interfaceFunctionList st
                        @ [(hash4 functionSignature, OfFunction f)]\<rparr>
              else addFunctions hash4 fs st)"

fun addVariables ::
  "(string \<Rightarrow> 'h) \<Rightarrow> StateVariable list \<Rightarrow> 'h InterfaceFunctions \<Rightarrow> 'h InterfaceFunctions" where
  "addVariables hash4 [] st = st"
| "addVariables hash4 (v # vs) st =
     (if variable_name v \<notin> functionsSeen st \<and> variable_isPartOfExternalInterface v
      then addVariables hash4 vs
             (st\<lparr>functionsSeen := insert (variable_name v) (functionsSeen st),
                 m_interfaceFunctionList := m_interfaceFunctionList st
                   @ [(hash4 (variable_externalSignature v), OfVariable v)]\<rparr>)
      else addVariables hash4 vs st)"

fun addContracts ::
  "(string \<Rightarrow> 'h) \<Rightarrow> ContractMembers list \<Rightarrow> 'h InterfaceFunctions \<Rightarrow> 'h InterfaceFunctions" where
  "addContracts hash4 [] st = st"
| "addContracts hash4 (contract # rest) st =
     addContracts hash4 rest
       (addVariables hash4 (stateVariables contract)
          (addFunctions hash4 (definedFunctions contract) st))"

definition interfaceFunctionList ::
  "(string \<Rightarrow> 'h) \<Rightarrow> ContractMembers list \<Rightarrow> ('h \<times> FunctionType) list" where
  "interfaceFunctionList hash4 linearizedBaseContracts' =
     m_interfaceFunctionList
       (addContracts hash4 linearizedBaseContracts'
          \<lparr>functionsSeen = {}, signaturesSeen = {}, m_interfaceFunctionList = []\<rparr>)"

definition collision_message :: "FunctionType \<Rightarrow> string" where
  "collision_message functionType =
     ''Function signature hash collision for '' @ externalSignature functionType"

fun checkHashCollisions ::
  "SourceLocation \<Rightarrow> ('h \<times> FunctionType) list \<Rightarrow> 'h set \<Rightarrow> Error list \<Rightarrow> Error list" where
  "checkHashCollisions loc [] hashes errors = errors"
| "checkHashCollisions loc (it # rest) hashes errors =
     checkHashCollisions loc rest (insert (fst it) hashes)
       (if fst it \<in> hashes then typeError loc (collision_message (snd it)) errors else errors)"

fun throwHashCollisions ::
  "SourceLocation \<Rightarrow> ('h \<times> FunctionType) list \<Rightarrow> 'h set \<Rightarrow> exn + unit" where
  "throwHashCollisions loc [] hashes = Inr ()"
| "throwHashCollisions loc (it # rest) hashes =
     (if fst it \<in> hashes then throwTypeError loc (collision_message (snd it))
      else throwHashCollisions loc rest (insert (fst it) hashes))"

text \<open>
  The notions the property of the list is stated with: the signatures of the
  externally visible functions and state variables of the contracts, and the signatures
  of the entries built from functions.
\<close>

definition externalFunctionSignatures :: "ContractMembers list \<Rightarrow> string set" where
  "externalFunctionSignatures contracts =
     {function_externalSignature f | f c.
        c \<in> set contracts \<and> f \<in> set (definedFunctions c) \<and> function_isPartOfExternalInterface f}"

definition externalVariableSignatures :: "ContractMembers list \<Rightarrow> string set" where
  "externalVariableSignatures contracts =
     {variable_externalSignature v | v c.
        c \<in> set contracts \<and> v \<in> set (stateVariables c) \<and> variable_isPartOfExternalInterface v}"

fun functionSignatures :: "('h \<times> FunctionType) list \<Rightarrow> string list" where
  "functionSignatures [] = []"
| "functionSignatures ((h, OfFunction f) # rest) = function_externalSignature f # functionSignatures rest"
| "functionSignatures ((h, OfVariable v) # rest) = functionSignatures rest"

text \<open>
  The content of the list, stated on the declarations in the order of the walk: the
  functions of the first contract, its state variables, the functions of the second
  contract, and so on. A function is listed when it is externally visible and no
  externally visible function before it has its signature. The accessor of a state
  variable is listed when the variable is externally visible, no function listed before
  it has its name and no externally visible state variable before it has its name.
  \<open>listedDeclarations\<close> keeps the declarations that are listed, in their order.
\<close>

definition declarations :: "ContractMembers list \<Rightarrow> FunctionType list" where
  "declarations contracts =
     concat (map (\<lambda>c. map OfFunction (definedFunctions c) @ map OfVariable (stateVariables c))
               contracts)"

definition visibleFunctionSignatures :: "FunctionType list \<Rightarrow> string list" where
  "visibleFunctionSignatures ds =
     concat (map (\<lambda>d. case d of
                    OfFunction f \<Rightarrow>
                      if function_isPartOfExternalInterface f then [function_externalSignature f] else []
                  | OfVariable v \<Rightarrow> []) ds)"

definition visibleVariableNames :: "FunctionType list \<Rightarrow> string list" where
  "visibleVariableNames ds =
     concat (map (\<lambda>d. case d of
                    OfFunction f \<Rightarrow> []
                  | OfVariable v \<Rightarrow>
                      if variable_isPartOfExternalInterface v then [variable_name v] else []) ds)"

definition firstOfSignature :: "FunctionType list \<Rightarrow> FunctionDefinition \<Rightarrow> bool" where
  "firstOfSignature earlier f \<longleftrightarrow>
     function_isPartOfExternalInterface f
     \<and> function_externalSignature f \<notin> set (visibleFunctionSignatures earlier)"

definition listedFunctionNames :: "FunctionType list \<Rightarrow> string list" where
  "listedFunctionNames ds =
     concat (map (\<lambda>i. case ds ! i of
                    OfFunction f \<Rightarrow> if firstOfSignature (take i ds) f then [function_name f] else []
                  | OfVariable v \<Rightarrow> []) [0..<length ds])"

definition isListed :: "FunctionType list \<Rightarrow> FunctionType \<Rightarrow> bool" where
  "isListed earlier d =
     (case d of
        OfFunction f \<Rightarrow> firstOfSignature earlier f
      | OfVariable v \<Rightarrow>
          variable_isPartOfExternalInterface v
          \<and> variable_name v \<notin> set (listedFunctionNames earlier)
          \<and> variable_name v \<notin> set (visibleVariableNames earlier))"

definition listedDeclarations :: "FunctionType list \<Rightarrow> FunctionType list" where
  "listedDeclarations ds =
     map (\<lambda>i. ds ! i) (filter (\<lambda>i. isListed (take i ds) (ds ! i)) [0..<length ds])"

text \<open>
  The invariant of the walk: the signatures seen are those of the entries built from
  functions, which are pairwise different; and every selector is the hash of the
  signature of its entry. After the declarations \<open>earlier\<close>, the signatures seen are
  those of the externally visible functions, the names seen are those of the listed
  functions and of the externally visible state variables, and the list holds the
  listed declarations.
\<close>

definition walk_inv :: "'h InterfaceFunctions \<Rightarrow> FunctionType list \<Rightarrow> bool" where
  "walk_inv st earlier \<longleftrightarrow>
     signaturesSeen st = set (visibleFunctionSignatures earlier)
     \<and> functionsSeen st = set (listedFunctionNames earlier) \<union> set (visibleVariableNames earlier)
     \<and> map snd (m_interfaceFunctionList st) = listedDeclarations earlier"

definition seen_inv :: "'h InterfaceFunctions \<Rightarrow> bool" where
  "seen_inv st \<longleftrightarrow>
     set (functionSignatures (m_interfaceFunctionList st)) = signaturesSeen st
     \<and> distinct (functionSignatures (m_interfaceFunctionList st))"

definition hashed :: "(string \<Rightarrow> 'h) \<Rightarrow> ('h \<times> FunctionType) list \<Rightarrow> bool" where
  "hashed hash4 entries \<longleftrightarrow> (\<forall>it \<in> set entries. fst it = hash4 (externalSignature (snd it)))"

text \<open>Concrete statements and expressions to run the checks on.\<close>

definition uint256 :: IntegerType where
  "uint256 = \<lparr>m_bits = 256, m_modifier = UNSIGNED\<rparr>"

definition example_return :: "IntegerType Return" where
  "example_return =
     \<lparr>return_location = \<lparr>loc_start = 40, loc_end = 48\<rparr>,
      return_expression = Some \<lparr>expr_location = \<lparr>loc_start = 47, loc_end = 48\<rparr>,
                                 expr_type = Some uint256\<rparr>,
      functionReturnParameters = Some
        [\<lparr>var_location = \<lparr>loc_start = 20, loc_end = 24\<rparr>, var_type = Some uint256\<rparr>,
         \<lparr>var_location = \<lparr>loc_start = 26, loc_end = 30\<rparr>, var_type = Some uint256\<rparr>]\<rparr>"

definition example_contracts :: AST where
  "example_contracts p =
     (if p = 1 then Some \<lparr>contract_location = \<lparr>loc_start = 0, loc_end = 60\<rparr>, baseContracts = []\<rparr>
      else if p = 2 then Some \<lparr>contract_location = \<lparr>loc_start = 61, loc_end = 90\<rparr>,
        baseContracts = [\<lparr>id_location = \<lparr>loc_start = 75, loc_end = 76\<rparr>,
                          referencedDeclaration = Some 1, contractScope = None\<rparr>]\<rparr>
      else None)"

definition example_annotations :: "ptr \<Rightarrow> ContractDefinitionAnnotation" where
  "example_annotations p =
     \<lparr>linearizedBaseContracts = (if p = 1 then [1] else if p = 2 then [2, 1] else []),
      contractDependencies = (if p = 2 then {1} else {}),
      isFullyImplemented = True\<rparr>"

definition example_new :: NewExpression where
  "example_new =
     \<lparr>new_location = \<lparr>loc_start = 40, loc_end = 47\<rparr>,
      contractName = \<lparr>id_location = \<lparr>loc_start = 44, loc_end = 45\<rparr>,
                      referencedDeclaration = Some 2, contractScope = Some 1\<rparr>\<rparr>"

definition example_access :: "DataLocation \<Rightarrow> IndexAccess" where
  "example_access location =
     \<lparr>access_location = \<lparr>loc_start = 10, loc_end = 14\<rparr>,
      baseExpression = \<lparr>expr_location = \<lparr>loc_start = 10, loc_end = 11\<rparr>,
                        expr_type = Some (ArrayC location Ordinary (IntegerC 256) None)\<rparr>,
      indexExpression = Some \<lparr>expr_location = \<lparr>loc_start = 12, loc_end = 13\<rparr>,
                               expr_type = Some (IntegerC 256)\<rparr>\<rparr>"

definition example_structs :: Structs where
  "example_structs =
     [(1, \<lparr>struct_location = \<lparr>loc_start = 0, loc_end = 20\<rparr>,
           members = [\<lparr>member_location = \<lparr>loc_start = 11, loc_end = 17\<rparr>,
                       member_type = StructByValue 2, canBeStored = True\<rparr>]\<rparr>),
      (2, \<lparr>struct_location = \<lparr>loc_start = 21, loc_end = 40\<rparr>,
           members = [\<lparr>member_location = \<lparr>loc_start = 31, loc_end = 33\<rparr>,
                       member_type = OtherMemberType, canBeStored = False\<rparr>,
                      \<lparr>member_location = \<lparr>loc_start = 34, loc_end = 37\<rparr>,
                       member_type = StructByValue 1, canBeStored = True\<rparr>]\<rparr>)]"

definition example_interface :: "ContractMembers list" where
  "example_interface =
     [\<lparr>definedFunctions =
         [\<lparr>function_name = ''f'', function_isPartOfExternalInterface = True,
           function_externalSignature = ''f(uint256)''\<rparr>,
          \<lparr>function_name = ''g'', function_isPartOfExternalInterface = True,
           function_externalSignature = ''g(uint8)''\<rparr>],
       stateVariables =
         [\<lparr>variable_name = ''x'', variable_isPartOfExternalInterface = True,
           variable_externalSignature = ''x()''\<rparr>,
          \<lparr>variable_name = ''g'', variable_isPartOfExternalInterface = True,
           variable_externalSignature = ''g()''\<rparr>,
          \<lparr>variable_name = ''y'', variable_isPartOfExternalInterface = False,
           variable_externalSignature = ''y()''\<rparr>]\<rparr>,
      \<lparr>definedFunctions =
         [\<lparr>function_name = ''f'', function_isPartOfExternalInterface = True,
           function_externalSignature = ''f(uint256)''\<rparr>,
          \<lparr>function_name = ''g'', function_isPartOfExternalInterface = True,
           function_externalSignature = ''g(uint16)''\<rparr>],
       stateVariables =
         [\<lparr>variable_name = ''x'', variable_isPartOfExternalInterface = True,
           variable_externalSignature = ''x()''\<rparr>]\<rparr>]"

section \<open>Properties of the integer types\<close>

text \<open>
  C4 (the code at the address token). \<open>Type::fromElementaryTypeName\<close> calls
  \<open>IntegerType(0, Modifier::ADDRESS)\<close>: the bit count 0 fails the constructor's
  assertion, and the members the constructor has stored by then hold the bit width 0,
  not 160.
\<close>

theorem address_type_construction:
  "fromElementaryTypeName ADDRESS_Token = Inl AssertionFailed
   \<and> \<not> IntegerType_assertion 0
   \<and> m_bits (IntegerType_members 0 ADDRESS) = 0"
  by (simp add: fromElementaryTypeName_def IntegerType_ctor_def IntegerType_assertion_def
      IntegerType_members_def)




section \<open>Properties of the C3 linearization\<close>

lemma precedes_appendI1: "precedes x y xs \<Longrightarrow> precedes x y (xs @ ys)"
  by (induction xs) auto

lemma precedes_appendI2: "x \<in> set xs \<Longrightarrow> y \<in> set ys \<Longrightarrow> precedes x y (xs @ ys)"
  by (induction xs) auto

lemma precedes_members: "precedes x y b \<Longrightarrow> x \<in> set b \<and> y \<in> set (tl b)"
  by (induction b) (auto split: if_splits intro: list.set_sel(2))

lemma precedes_removeAll:
  "precedes x y b \<Longrightarrow> c \<noteq> x \<Longrightarrow> c \<noteq> y \<Longrightarrow> precedes x y (removeAll c b)"
  by (induction b) (auto split: if_splits)

lemma precedes_hd: "b \<noteq> [] \<Longrightarrow> y \<in> set (tl b) \<Longrightarrow> precedes (hd b) y b"
  by (cases b) auto

lemma precedes_not_hd: "precedes x y r \<Longrightarrow> distinct r \<Longrightarrow> hd r \<noteq> y"
proof -
  assume "precedes x y r" and d: "distinct r"
  then have "y \<in> set (tl r)" by (simp add: precedes_members)
  with d show ?thesis by (cases r) auto
qed

lemma removeAll_Nil_iff: "removeAll c b = [] \<longleftrightarrow> set b \<subseteq> {c}"
  by (induction b) auto

lemma set_concat_removeCandidate:
  "set (concat (removeCandidate c toMerge)) = set (concat toMerge) - {c}"
  by (induction toMerge) (auto simp: Let_def removeAll_Nil_iff)

lemma cThreeMerge_loop_Nil: "cThreeMerge_loop [] result = Inr result"
  by (subst cThreeMerge_loop.simps) simp

lemma cThreeMerge_loop_exn:
  "toMerge \<noteq> [] \<Longrightarrow> nextCandidate toMerge = Inl e \<Longrightarrow> cThreeMerge_loop toMerge result = Inl e"
  by (subst cThreeMerge_loop.simps) simp

lemma cThreeMerge_loop_stuck:
  "toMerge \<noteq> [] \<Longrightarrow> nextCandidate toMerge = Inr None \<Longrightarrow> cThreeMerge_loop toMerge result = Inr []"
  by (subst cThreeMerge_loop.simps) simp

lemma cThreeMerge_loop_step:
  "toMerge \<noteq> [] \<Longrightarrow> nextCandidate toMerge = Inr (Some c) \<Longrightarrow>
   cThreeMerge_loop toMerge result = cThreeMerge_loop (removeCandidate c toMerge) (result @ [c])"
  by (subst cThreeMerge_loop.simps) simp

lemma removeCandidate_nonempty: "[] \<notin> set (removeCandidate c toMerge)"
  by (induction toMerge) (auto simp: Let_def)

lemma removeCandidate_member:
  "b \<in> set toMerge \<Longrightarrow> removeAll c b \<noteq> [] \<Longrightarrow> removeAll c b \<in> set (removeCandidate c toMerge)"
  by (induction toMerge) (auto simp: Let_def)

lemma appearsOnlyAtHead_no_exn:
  "[] \<notin> set toMerge \<Longrightarrow> appearsOnlyAtHead toMerge c \<noteq> Inl e"
  by (induction toMerge) auto

lemma nextCandidate_from_no_exn:
  "[] \<notin> set toMerge \<Longrightarrow> [] \<notin> set bs \<Longrightarrow> nextCandidate_from toMerge bs \<noteq> Inl e"
  by (induction bs) (auto simp: appearsOnlyAtHead_no_exn split: sum.splits bool.splits)

lemma nextCandidate_no_exn: "[] \<notin> set toMerge \<Longrightarrow> nextCandidate toMerge \<noteq> Inl e"
  unfolding nextCandidate_def by (rule nextCandidate_from_no_exn)

lemma nextCandidate_in_concat:
  "nextCandidate toMerge = Inr (Some c) \<Longrightarrow> c \<in> set (concat toMerge)"
  by (auto dest!: nextCandidate_head) (metis hd_in_set)

lemma cThreeMerge_loop_no_exn:
  "[] \<notin> set toMerge \<Longrightarrow> \<exists>r. cThreeMerge_loop toMerge result = Inr r"
proof (induction toMerge result rule: cThreeMerge_loop.induct)
  case (1 toMerge result)
  show ?case
  proof (cases "nextCandidate toMerge")
    case (Inl e)
    with "1.prems" show ?thesis by (simp add: nextCandidate_no_exn)
  next
    case (Inr cand)
    show ?thesis
    proof (cases cand)
      case None
      with Inr show ?thesis
        by (cases "toMerge = []") (simp_all add: cThreeMerge_loop_Nil cThreeMerge_loop_stuck)
    next
      case (Some c)
      show ?thesis
      proof (cases "toMerge = []")
        case True
        then show ?thesis by (simp add: cThreeMerge_loop_Nil)
      next
        case False
        from "1.IH" [OF False Inr Some removeCandidate_nonempty] Inr Some False
        show ?thesis by (simp add: cThreeMerge_loop_step)
      qed
    qed
  qed
qed

lemma cThreeMerge_loop_result:
  "cThreeMerge_loop toMerge result = Inr r \<Longrightarrow>
   r = [] \<or> (\<exists>s. r = result @ s \<and> set s = set (concat toMerge) \<and> distinct s)"
proof (induction toMerge result rule: cThreeMerge_loop.induct)
  case (1 toMerge result)
  show ?case
  proof (cases "toMerge = []")
    case True
    with "1.prems" show ?thesis by (simp add: cThreeMerge_loop_Nil)
  next
    case ne: False
    show ?thesis
    proof (cases "nextCandidate toMerge")
      case (Inl e)
      with ne "1.prems" show ?thesis by (simp add: cThreeMerge_loop_exn)
    next
      case (Inr cand)
      show ?thesis
      proof (cases cand)
        case None
        with Inr ne "1.prems" show ?thesis by (simp add: cThreeMerge_loop_stuck)
      next
        case (Some c)
        with Inr ne "1.prems"
        have run: "cThreeMerge_loop (removeCandidate c toMerge) (result @ [c]) = Inr r"
          by (simp add: cThreeMerge_loop_step)
        from Inr Some have "nextCandidate toMerge = Inr (Some c)" by simp
        then have cin: "c \<in> set (concat toMerge)"
          by (rule nextCandidate_in_concat)
        from "1.IH" [OF ne Inr Some run]
        show ?thesis
        proof
          assume "r = []" then show ?thesis ..
        next
          assume "\<exists>s. r = (result @ [c]) @ s \<and> set s = set (concat (removeCandidate c toMerge)) \<and> distinct s"
          then obtain s where s: "r = (result @ [c]) @ s"
            "set s = set (concat (removeCandidate c toMerge))" "distinct s" by blast
          from s(2) have s': "set s = set (concat toMerge) - {c}"
            by (simp only: set_concat_removeCandidate)
          with s(1,3) cin have "r = result @ (c # s) \<and> set (c # s) = set (concat toMerge) \<and> distinct (c # s)"
            by auto
          then show ?thesis by blast
        qed
      qed
    qed
  qed
qed

lemma ordered_so_far_step:
  assumes cand: "nextCandidate toMerge = Inr (Some c)"
    and inv: "ordered_so_far x y toMerge result"
  shows "ordered_so_far x y (removeCandidate c toMerge) (result @ [c])"
proof -
  from cand have tails: "\<forall>b \<in> set toMerge. b \<noteq> [] \<and> c \<notin> set (tl b)"
    by (rule nextCandidate_tails)
  from inv consider (placed) "precedes x y result"
    | (half) "x \<in> set result" "y \<in> set (concat toMerge)"
    | (waiting) b where "x \<notin> set result" "b \<in> set toMerge" "precedes x y b"
    unfolding ordered_so_far_def by blast
  then show ?thesis
  proof cases
    case placed
    then show ?thesis by (simp add: ordered_so_far_def precedes_appendI1)
  next
    case half
    show ?thesis
    proof (cases "y = c")
      case True
      with half(1) have "precedes x y (result @ [c])" by (simp add: precedes_appendI2)
      then show ?thesis by (simp add: ordered_so_far_def)
    next
      case False
      with half show ?thesis
        by (simp only: ordered_so_far_def set_concat_removeCandidate) auto
    qed
  next
    case waiting
    from waiting(3) have xy: "x \<in> set b" "y \<in> set (tl b)" by (auto dest: precedes_members)
    with tails waiting(2) have "c \<noteq> y" by auto
    show ?thesis
    proof (cases "c = x")
      case True
      from xy(2) have "y \<in> set b" by (cases b) auto
      with waiting(2) \<open>c \<noteq> y\<close> have "y \<in> set (concat (removeCandidate c toMerge))"
        by (simp only: set_concat_removeCandidate) auto
      with True show ?thesis by (simp add: ordered_so_far_def)
    next
      case False
      with waiting(3) \<open>c \<noteq> y\<close> have p: "precedes x y (removeAll c b)"
        by (simp add: precedes_removeAll)
      then have "removeAll c b \<noteq> []" by auto
      with waiting(2) have "removeAll c b \<in> set (removeCandidate c toMerge)"
        by (rule removeCandidate_member)
      with p waiting(1) False show ?thesis by (auto simp: ordered_so_far_def)
    qed
  qed
qed

lemma cThreeMerge_loop_ordered:
  "cThreeMerge_loop toMerge result = Inr r \<Longrightarrow> r \<noteq> [] \<Longrightarrow>
   ordered_so_far x y toMerge result \<Longrightarrow> precedes x y r"
proof (induction toMerge result rule: cThreeMerge_loop.induct)
  case (1 toMerge result)
  show ?case
  proof (cases "toMerge = []")
    case True
    with "1.prems" show ?thesis
      by (simp add: cThreeMerge_loop_Nil ordered_so_far_def)
  next
    case ne: False
    show ?thesis
    proof (cases "nextCandidate toMerge")
      case (Inl e)
      with ne "1.prems" show ?thesis by (simp add: cThreeMerge_loop_exn)
    next
      case (Inr cand)
      show ?thesis
      proof (cases cand)
        case None
        with Inr ne "1.prems" show ?thesis by (simp add: cThreeMerge_loop_stuck)
      next
        case (Some c)
        with Inr ne "1.prems"
        have run: "cThreeMerge_loop (removeCandidate c toMerge) (result @ [c]) = Inr r"
          by (simp add: cThreeMerge_loop_step)
        from Inr Some "1.prems"(3)
        have "ordered_so_far x y (removeCandidate c toMerge) (result @ [c])"
          by (simp add: ordered_so_far_step)
        with "1.IH" [OF ne Inr Some run "1.prems"(2)] show ?thesis .
      qed
    qed
  qed
qed

lemma appearsOnlyAtHead_iff:
  "[] \<notin> set toMerge \<Longrightarrow>
   appearsOnlyAtHead toMerge c = Inr (\<forall>b \<in> set toMerge. c \<notin> set (tl b))"
  by (induction toMerge) auto

lemma nextCandidate_from_None_iff:
  "[] \<notin> set toMerge \<Longrightarrow> [] \<notin> set bs \<Longrightarrow>
   nextCandidate_from toMerge bs = Inr None \<longleftrightarrow> (\<forall>b \<in> set bs. \<exists>b' \<in> set toMerge. hd b \<in> set (tl b'))"
  by (induction bs) (auto simp: appearsOnlyAtHead_iff split: bool.splits)

lemma nextCandidate_None_iff:
  "[] \<notin> set toMerge \<Longrightarrow> nextCandidate toMerge = Inr None \<longleftrightarrow> noCandidate toMerge"
  unfolding nextCandidate_def noCandidate_def by (rule nextCandidate_from_None_iff)

lemma mergeReaches_nonempty:
  "mergeReaches toMerge toMerge' \<Longrightarrow> [] \<notin> set toMerge \<Longrightarrow> [] \<notin> set toMerge'"
  by (induction rule: mergeReaches.induct) (auto simp: removeCandidate_nonempty)

lemma cThreeMerge_loop_stuck_reached:
  "mergeReaches toMerge toMerge' \<Longrightarrow> toMerge' \<noteq> [] \<Longrightarrow> nextCandidate toMerge' = Inr None \<Longrightarrow>
   cThreeMerge_loop toMerge result = Inr []"
proof (induction arbitrary: result rule: mergeReaches.induct)
  case (start toMerge)
  then show ?case by (simp add: cThreeMerge_loop_stuck)
next
  case (step toMerge c toMerge')
  from step.hyps(1) have "toMerge \<noteq> []"
    by (auto simp: nextCandidate_def)
  with step show ?case by (simp add: cThreeMerge_loop_step)
qed

lemma cThreeMerge_loop_empty_reaches:
  "cThreeMerge_loop toMerge result = Inr [] \<Longrightarrow> toMerge \<noteq> [] \<Longrightarrow> [] \<notin> set toMerge \<Longrightarrow>
   \<exists>toMerge'. mergeReaches toMerge toMerge' \<and> toMerge' \<noteq> [] \<and> nextCandidate toMerge' = Inr None"
proof (induction toMerge result rule: cThreeMerge_loop.induct)
  case (1 toMerge result)
  note ne = \<open>toMerge \<noteq> []\<close>
  show ?case
  proof (cases "nextCandidate toMerge")
    case (Inl e)
    with "1.prems" show ?thesis by (simp add: nextCandidate_no_exn)
  next
    case (Inr cand)
    show ?thesis
    proof (cases cand)
      case None
      with Inr ne show ?thesis by (auto intro: mergeReaches.start)
    next
      case (Some c)
      with Inr ne "1.prems"
      have run: "cThreeMerge_loop (removeCandidate c toMerge) (result @ [c]) = Inr []"
        by (simp add: cThreeMerge_loop_step)
      then have "removeCandidate c toMerge \<noteq> []"
        by (auto simp: cThreeMerge_loop_Nil)
      from "1.IH" [OF ne Inr Some run this removeCandidate_nonempty]
      obtain toMerge' where "mergeReaches (removeCandidate c toMerge) toMerge'"
        "toMerge' \<noteq> []" "nextCandidate toMerge' = Inr None" by blast
      with Inr Some show ?thesis by (auto intro: mergeReaches.step)
    qed
  qed
qed

lemma linearizationInput_resolved:
  assumes "\<forall>n \<in> set specs. \<exists>b. referencedDeclaration n = Some b \<and> ast b \<noteq> None
             \<and> linearizedBaseContracts (annotation st b) \<noteq> []"
  shows "linearizationInput ast st specs frontLists backList =
     (Inr (rev (map (\<lambda>b. linearizedBaseContracts (annotation st b))
                  (List.map_filter referencedDeclaration specs)) @ frontLists,
           rev (List.map_filter referencedDeclaration specs) @ backList), st)"
  using assms
proof (induction specs arbitrary: frontLists backList)
  case Nil
  then show ?case by simp
next
  case (Cons n specs)
  from Cons.prems obtain b where b: "referencedDeclaration n = Some b" "ast b \<noteq> None"
    "linearizedBaseContracts (annotation st b) \<noteq> []" by auto
  from Cons.prems have "\<forall>n \<in> set specs. \<exists>b. referencedDeclaration n = Some b \<and> ast b \<noteq> None
             \<and> linearizedBaseContracts (annotation st b) \<noteq> []" by simp
  from Cons.IH [OF this] b show ?case
    by (auto simp: dynamic_cast_ContractDefinition_def Let_def)
qed

lemma set_map_filter_ref:
  "set (List.map_filter referencedDeclaration specs) = {b. \<exists>n \<in> set specs. referencedDeclaration n = Some b}"
  by (induction specs) (auto split: option.splits)

lemma linearizeBaseContracts_resolved:
  assumes contract: "ast C = Some def"
    and resolved: "\<forall>baseName \<in> set (baseContracts def).
        \<exists>b. referencedDeclaration baseName = Some b \<and> ast b \<noteq> None \<and> linearized ast st b"
  shows
    "(linearizeBaseContracts ast C st =
        reportFatalTypeError
          (createTypeError (contract_location def) ''Linearization of inheritance graph impossible'') st
      \<and> (\<exists>toMerge. mergeReaches (mergeInput ast st C) toMerge \<and> toMerge \<noteq> [] \<and> noCandidate toMerge))
     \<or> (\<exists>l. linearizeBaseContracts ast C st =
               (Inr (), st\<lparr>annotation := (annotation st)
                                (C := (annotation st C)
                                   \<lparr>linearizedBaseContracts := l,
                                    contractDependencies :=
                                      contractDependencies (annotation st C) \<union> set (tl l)\<rparr>)\<rparr>)
          \<and> l \<noteq> [] \<and> hd l = C \<and> distinct l
          \<and> (\<forall>d \<in> set l. \<forall>b \<in> set (directBases ast d). precedes d b l)
          \<and> (\<forall>toMerge. mergeReaches (mergeInput ast st C) toMerge \<longrightarrow> toMerge = [] \<or> \<not> noCandidate toMerge))"
proof -
  define bs where "bs = directBases ast C"
  define lin where "lin = (\<lambda>b. linearizedBaseContracts (annotation st b))"
  define input where "input = rev (map lin bs) @ [C # rev bs]"
  have bs_eq: "bs = List.map_filter referencedDeclaration (baseContracts def)"
    by (simp add: bs_def directBases_def contract)
  have input_eq: "mergeInput ast st C = input"
    by (simp add: mergeInput_def input_def bs_def lin_def Let_def)
  have bs_lin: "linearized ast st b" if "b \<in> set bs" for b
    using that resolved unfolding bs_eq set_map_filter_ref by auto
  then have lin_ne: "lin b \<noteq> []" if "b \<in> set bs" for b
    using that by (auto simp: linearized_def lin_def Let_def)
  have "\<forall>n \<in> set (baseContracts def). \<exists>b. referencedDeclaration n = Some b \<and> ast b \<noteq> None
             \<and> linearizedBaseContracts (annotation st b) \<noteq> []"
    using resolved by (auto simp: linearized_def Let_def)
  from linearizationInput_resolved [OF this, of "[]" "[]"]
  have inp: "linearizationInput ast st (baseContracts def) [] [] = (Inr (rev (map lin bs), rev bs), st)"
    by (simp add: bs_eq lin_def)
  have input_ne: "[] \<notin> set input"
    using lin_ne by (fastforce simp: input_def)
  then have filt: "filter (\<lambda>bases. bases \<noteq> []) input = input"
    by (induction input) auto
  have input_nonnil: "input \<noteq> []" by (simp add: input_def)
  from cThreeMerge_loop_no_exn [OF input_ne, of "[]"]
  obtain r where r: "cThreeMerge_loop input [] = Inr r" by blast
  then have "cThreeMerge input = Inr r"
    by (simp only: cThreeMerge_def filt)
  then have merge: "cThreeMerge (rev (map lin bs) @ [C # rev bs]) = Inr r"
    by (simp only: input_def)
  show ?thesis
  proof (cases "r = []")
    case True
    with r input_nonnil input_ne
    obtain toMerge where tm: "mergeReaches input toMerge" "toMerge \<noteq> []"
      "nextCandidate toMerge = Inr None"
      by (blast dest: cThreeMerge_loop_empty_reaches)
    from tm(1) input_ne have "[] \<notin> set toMerge" by (rule mergeReaches_nonempty)
    with tm(3) have "noCandidate toMerge" by (simp add: nextCandidate_None_iff)
    with tm have stuck: "\<exists>toMerge. mergeReaches (mergeInput ast st C) toMerge \<and> toMerge \<noteq> [] \<and> noCandidate toMerge"
      unfolding input_eq by blast
    from True merge inp contract
    have "linearizeBaseContracts ast C st =
        reportFatalTypeError
          (createTypeError (contract_location def) ''Linearization of inheritance graph impossible'') st"
      by (simp add: linearizeBaseContracts_def)
    with stuck show ?thesis by blast
  next
    case False
    define st' where "st' = st\<lparr>annotation := (annotation st)
                                (C := (annotation st C)
                                   \<lparr>linearizedBaseContracts := r,
                                    contractDependencies :=
                                      contractDependencies (annotation st C) \<union> set (tl r)\<rparr>)\<rparr>"
    from False merge inp contract
    have run: "linearizeBaseContracts ast C st = (Inr (), st')"
      by (simp add: linearizeBaseContracts_def st'_def)
    have errs: "m_errors st' = m_errors st" by (simp add: st'_def)
    have l: "linearizedBaseContracts (annotation st' C) = r" by (simp add: st'_def)
    from cThreeMerge_loop_result [OF r] False
    have set_r: "set r = set (concat input)" and dist: "distinct r" by auto
    have ord: "precedes x y r" if "b \<in> set input" "precedes x y b" for x y b
    proof -
      from that have "ordered_so_far x y input []"
        by (auto simp: ordered_so_far_def)
      with r False show ?thesis by (rule cThreeMerge_loop_ordered)
    qed
    have C_first: "precedes C b r" if "b \<in> set bs" for b
    proof -
      have "precedes C b (C # rev bs)" using that by simp
      moreover have "C # rev bs \<in> set input" by (simp add: input_def)
      ultimately show ?thesis by (rule ord [rotated])
    qed
    have in_lin: "\<exists>bi \<in> set bs. d \<in> set (lin bi)" if "d \<in> set r" "d \<noteq> C" for d
    proof -
      from that set_r have "d \<in> set bs \<or> (\<exists>bi \<in> set bs. d \<in> set (lin bi))"
        by (auto simp: input_def)
      then show ?thesis
      proof
        assume d: "d \<in> set bs"
        with bs_lin [OF d] have "d \<in> set (lin d)"
          by (auto simp: linearized_def Let_def lin_def dest: hd_in_set)
        with d show ?thesis by blast
      qed
    qed
    have lin_input: "lin bi \<in> set input" if "bi \<in> set bs" for bi
      using that by (simp add: input_def)
    have edges: "precedes d b r" if "d \<in> set r" "b \<in> set (directBases ast d)" for d b
    proof (cases "d = C")
      case True
      with that C_first show ?thesis by (simp add: bs_def)
    next
      case False
      with that(1) obtain bi where bi: "bi \<in> set bs" "d \<in> set (lin bi)"
        by (blast dest: in_lin)
      with bs_lin [OF bi(1)] that(2) have "precedes d b (lin bi)"
        by (auto simp: linearized_def Let_def lin_def)
      with lin_input [OF bi(1)] show ?thesis by (rule ord)
    qed
    have hd_r: "hd r = C"
    proof (rule ccontr)
      assume neq: "hd r \<noteq> C"
      from \<open>r \<noteq> []\<close> have "hd r \<in> set r" by simp
      with neq obtain bi where bi: "bi \<in> set bs" "hd r \<in> set (lin bi)"
        by (blast dest: in_lin)
      from bs_lin [OF bi(1)] have h: "lin bi \<noteq> []" "hd (lin bi) = bi"
        by (auto simp: linearized_def Let_def lin_def)
      show False
      proof (cases "hd r = bi")
        case True
        with C_first [OF bi(1)] dist show False by (auto dest: precedes_not_hd)
      next
        case False
        with bi(2) h have "hd r \<in> set (tl (lin bi))" by (cases "lin bi") auto
        with h have "precedes bi (hd r) (lin bi)" by (auto dest: precedes_hd)
        with lin_input [OF bi(1)] have "precedes bi (hd r) r" by (rule ord)
        with dist show False by (auto dest: precedes_not_hd)
      qed
    qed
    have props: "r \<noteq> [] \<and> hd r = C \<and> distinct r
                \<and> (\<forall>d \<in> set r. \<forall>b \<in> set (directBases ast d). precedes d b r)"
      using False hd_r dist edges by simp
    have nostuck: "toMerge = [] \<or> \<not> noCandidate toMerge"
      if "mergeReaches (mergeInput ast st C) toMerge" for toMerge
    proof (rule ccontr)
      assume "\<not> (toMerge = [] \<or> \<not> noCandidate toMerge)"
      then have tm: "toMerge \<noteq> []" "noCandidate toMerge" by auto
      from that input_ne have "[] \<notin> set toMerge"
        unfolding input_eq by (rule mergeReaches_nonempty)
      with tm(2) have "nextCandidate toMerge = Inr None" by (simp add: nextCandidate_None_iff)
      with that tm(1) have "cThreeMerge_loop input [] = Inr []"
        unfolding input_eq by (rule cThreeMerge_loop_stuck_reached)
      with r False show False by simp
    qed
    from run [unfolded st'_def] props nostuck show ?thesis by blast
  qed
qed

lemma linearizationInput_unresolved:
  assumes "specs = pre @ n # post" and "\<forall>m \<in> set pre. baseResolved ast st m"
    and "\<not> baseResolved ast st n"
  shows "linearizationInput ast st specs frontLists backList =
     (Inl FatalError,
      st\<lparr>m_errors := m_errors st @
          [createTypeError (id_location n)
             (if \<forall>b. referencedDeclaration n = Some b \<longrightarrow> ast b = None
              then ''Contract expected.''
              else ''Definition of base has to precede definition of derived contract'')]\<rparr>)"
  using assms
proof (induction pre arbitrary: specs frontLists backList)
  case Nil
  then show ?case
    by (auto simp: baseResolved_def dynamic_cast_ContractDefinition_def reportFatalTypeError_def
        Let_def split: option.splits)
next
  case (Cons m pre)
  from Cons.prems(2) obtain b where b: "referencedDeclaration m = Some b" "ast b \<noteq> None"
    "linearizedBaseContracts (annotation st b) \<noteq> []"
    by (auto simp: baseResolved_def)
  from Cons.prems(2) have rest: "\<forall>m \<in> set pre. baseResolved ast st m" by simp
  from Cons.IH [OF refl rest Cons.prems(3)] Cons.prems(1) b show ?case
    by (auto simp: dynamic_cast_ContractDefinition_def Let_def)
qed

lemma first_unresolved:
  assumes "\<not> (\<forall>n \<in> set specs. baseResolved ast st n)"
  shows "\<exists>pre n post. specs = pre @ n # post \<and> (\<forall>m \<in> set pre. baseResolved ast st m)
           \<and> \<not> baseResolved ast st n"
proof -
  from assms have "\<exists>n \<in> set specs. \<not> baseResolved ast st n" by simp
  from split_list_first_prop [OF this]
  obtain pre n post where "specs = pre @ n # post" "\<not> baseResolved ast st n"
    "\<forall>m \<in> set pre. \<not> \<not> baseResolved ast st m"
    by blast
  then show ?thesis by auto
qed

lemma linearizationInvariant_initial:
  "\<forall>b. linearizedBaseContracts (annotation st b) = [] \<Longrightarrow> linearizationInvariant ast st"
  by (simp add: linearizationInvariant_def)

lemma linearizationInvariant_errors:
  "linearizationInvariant ast st \<Longrightarrow> linearizationInvariant ast (st\<lparr>m_errors := errors\<rparr>)"
  by (simp add: linearizationInvariant_def linearized_def)

lemma linearizationInvariant_update:
  assumes "linearizationInvariant ast st"
    and "l \<noteq> []" "hd l = C" "distinct l"
    and "\<forall>d \<in> set l. \<forall>b \<in> set (directBases ast d). precedes d b l"
  shows "linearizationInvariant ast
           (st\<lparr>annotation := (annotation st)
                  (C := (annotation st C)\<lparr>linearizedBaseContracts := l, contractDependencies := deps\<rparr>)\<rparr>)"
  using assms by (auto simp: linearizationInvariant_def linearized_def Let_def)

text \<open>
  C1, as stated, fails on the code: there are contracts for which \<open>linearizeBaseContracts\<close>
  neither reports "Linearization of inheritance graph impossible" nor sets the
  annotation. For contract 6, whose base name is bound to a declaration that is no
  contract, it reports the fatal error "Contract expected."; for contract 7, whose base
  is a contract without a linearization, it reports "Definition of base has to precede
  definition of derived contract". Both leave the annotation empty.
\<close>

theorem linearizeBaseContracts_counterexample:
  "fst (linearizeBaseContracts diamond_ast 6 diamond_state) = Inl FatalError
   \<and> m_errors (snd (linearizeBaseContracts diamond_ast 6 diamond_state))
       = [createTypeError \<lparr>loc_start = 55, loc_end = 56\<rparr> ''Contract expected.'']
   \<and> linearizedBaseContracts (annotation (snd (linearizeBaseContracts diamond_ast 6 diamond_state)) 6) = []
   \<and> fst (linearizeBaseContracts diamond_ast 7 diamond_state) = Inl FatalError
   \<and> m_errors (snd (linearizeBaseContracts diamond_ast 7 diamond_state))
       = [createTypeError \<lparr>loc_start = 65, loc_end = 66\<rparr>
            ''Definition of base has to precede definition of derived contract'']
   \<and> linearizedBaseContracts (annotation (snd (linearizeBaseContracts diamond_ast 7 diamond_state)) 7) = []"
  by (simp add: linearizeBaseContracts_def diamond_ast_def diamond_state_def
      dynamic_cast_ContractDefinition_def reportFatalTypeError_def)

text \<open>
  C1, amended. Let every linearization stored so far be well formed (not empty lists
  start with their contract, have no duplicates and put every listed contract before
  each of its direct bases), as they are before the first contract is linearized, when
  all are empty. Then for every contract \<open>C\<close>, \<open>linearizeBaseContracts\<close> does one of four
  things, according to the base names of \<open>C\<close>, and keeps the stored linearizations well
  formed. At the
  first base name that is not bound to a contract it appends the type error "Contract
  expected." and throws \<open>FatalError\<close>. At the first base name bound to a contract
  without a linearization it appends "Definition of base has to precede definition of
  derived contract" and throws \<open>FatalError\<close>. When every base name is bound to a
  linearized contract and the merge reaches non-empty lists none of whose heads is
  absent from all the tails, it appends "Linearization of inheritance graph impossible"
  at the contract and throws \<open>FatalError\<close>. Otherwise it adds no error and sets the
  annotation of \<open>C\<close> to a non-empty list that starts with \<open>C\<close>, has no duplicates and
  puts every listed contract \<open>d\<close> before every direct base of \<open>d\<close>. An error leaves the
  annotations as they were.
\<close>

theorem linearizeBaseContracts_outcomes:
  assumes contract: "ast C = Some cdef"
    and inv: "linearizationInvariant ast st"
  shows
    "((\<exists>pre n post. baseContracts cdef = pre @ n # post
          \<and> (\<forall>m \<in> set pre. baseResolved ast st m)
          \<and> (\<forall>b. referencedDeclaration n = Some b \<longrightarrow> ast b = None)
          \<and> linearizeBaseContracts ast C st =
              (Inl FatalError,
               st\<lparr>m_errors := m_errors st @
                   [createTypeError (id_location n) ''Contract expected.'']\<rparr>))
      \<or> (\<exists>pre n post b. baseContracts cdef = pre @ n # post
          \<and> (\<forall>m \<in> set pre. baseResolved ast st m)
          \<and> referencedDeclaration n = Some b \<and> ast b \<noteq> None
          \<and> linearizedBaseContracts (annotation st b) = []
          \<and> linearizeBaseContracts ast C st =
              (Inl FatalError,
               st\<lparr>m_errors := m_errors st @
                   [createTypeError (id_location n)
                      ''Definition of base has to precede definition of derived contract'']\<rparr>))
      \<or> ((\<forall>n \<in> set (baseContracts cdef). baseResolved ast st n)
          \<and> (\<exists>toMerge. mergeReaches (mergeInput ast st C) toMerge \<and> toMerge \<noteq> []
                \<and> noCandidate toMerge)
          \<and> linearizeBaseContracts ast C st =
              (Inl FatalError,
               st\<lparr>m_errors := m_errors st @
                   [createTypeError (contract_location cdef)
                      ''Linearization of inheritance graph impossible'']\<rparr>))
      \<or> ((\<forall>n \<in> set (baseContracts cdef). baseResolved ast st n)
          \<and> (\<forall>toMerge. mergeReaches (mergeInput ast st C) toMerge
                \<longrightarrow> toMerge = [] \<or> \<not> noCandidate toMerge)
          \<and> (\<exists>l. l \<noteq> [] \<and> hd l = C \<and> distinct l
                \<and> (\<forall>d \<in> set l. \<forall>b \<in> set (directBases ast d). b \<in> set l \<and> precedes d b l)
                \<and> linearizeBaseContracts ast C st =
                    (Inr (),
                     st\<lparr>annotation := (annotation st)
                          (C := (annotation st C)
                             \<lparr>linearizedBaseContracts := l,
                              contractDependencies :=
                                contractDependencies (annotation st C) \<union> set (tl l)\<rparr>)\<rparr>))))
     \<and> linearizationInvariant ast (snd (linearizeBaseContracts ast C st))"
proof (cases "\<forall>n \<in> set (baseContracts cdef). baseResolved ast st n")
  case False
  from first_unresolved [OF False]
  obtain pre n post where split: "baseContracts cdef = pre @ n # post"
    "\<forall>m \<in> set pre. baseResolved ast st m" "\<not> baseResolved ast st n"
    by blast
  from linearizationInput_unresolved [OF split, of "[]" "[]"] contract
  have run: "linearizeBaseContracts ast C st =
     (Inl FatalError,
      st\<lparr>m_errors := m_errors st @
          [createTypeError (id_location n)
             (if \<forall>b. referencedDeclaration n = Some b \<longrightarrow> ast b = None
              then ''Contract expected.''
              else ''Definition of base has to precede definition of derived contract'')]\<rparr>)"
    by (simp add: linearizeBaseContracts_def)
  then have keep: "linearizationInvariant ast (snd (linearizeBaseContracts ast C st))"
    using inv by (simp add: linearizationInvariant_errors)
  show ?thesis
  proof (cases "\<forall>b. referencedDeclaration n = Some b \<longrightarrow> ast b = None")
    case True
    with run have "linearizeBaseContracts ast C st =
              (Inl FatalError,
               st\<lparr>m_errors := m_errors st @
                   [createTypeError (id_location n) ''Contract expected.'']\<rparr>)"
      by simp
    with split(1,2) True
    have expected: "\<exists>pre n post. baseContracts cdef = pre @ n # post
          \<and> (\<forall>m \<in> set pre. baseResolved ast st m)
          \<and> (\<forall>b. referencedDeclaration n = Some b \<longrightarrow> ast b = None)
          \<and> linearizeBaseContracts ast C st =
              (Inl FatalError,
               st\<lparr>m_errors := m_errors st @
                   [createTypeError (id_location n) ''Contract expected.'']\<rparr>)"
      by blast
    show ?thesis
      by (rule conjI, rule disjI1, rule expected, rule keep)
  next
    case False
    then obtain b where b: "referencedDeclaration n = Some b" "ast b \<noteq> None" by auto
    with split(3) have empty: "linearizedBaseContracts (annotation st b) = []"
      by (auto simp: baseResolved_def)
    from run False have "linearizeBaseContracts ast C st =
              (Inl FatalError,
               st\<lparr>m_errors := m_errors st @
                   [createTypeError (id_location n)
                      ''Definition of base has to precede definition of derived contract'']\<rparr>)"
      by simp
    with split(1,2) b empty
    have precede: "\<exists>pre n post b. baseContracts cdef = pre @ n # post
          \<and> (\<forall>m \<in> set pre. baseResolved ast st m)
          \<and> referencedDeclaration n = Some b \<and> ast b \<noteq> None
          \<and> linearizedBaseContracts (annotation st b) = []
          \<and> linearizeBaseContracts ast C st =
              (Inl FatalError,
               st\<lparr>m_errors := m_errors st @
                   [createTypeError (id_location n)
                      ''Definition of base has to precede definition of derived contract'']\<rparr>)"
      by blast
    show ?thesis
      by (rule conjI, rule disjI2, rule disjI1, rule precede, rule keep)
  qed
next
  case True
  then have resolved: "\<forall>baseName \<in> set (baseContracts cdef).
        \<exists>b. referencedDeclaration baseName = Some b \<and> ast b \<noteq> None \<and> linearized ast st b"
    using inv by (auto simp: baseResolved_def linearizationInvariant_def)
  from linearizeBaseContracts_resolved [OF contract resolved]
  show ?thesis
  proof (elim disjE conjE exE)
    assume run: "linearizeBaseContracts ast C st =
        reportFatalTypeError
          (createTypeError (contract_location cdef) ''Linearization of inheritance graph impossible'') st"
    fix toMerge :: "ptr list list"
    assume stuck: "mergeReaches (mergeInput ast st C) toMerge" "toMerge \<noteq> []" "noCandidate toMerge"
    from run inv have keep: "linearizationInvariant ast (snd (linearizeBaseContracts ast C st))"
      by (simp add: reportFatalTypeError_def linearizationInvariant_errors)
    from run have "linearizeBaseContracts ast C st =
              (Inl FatalError,
               st\<lparr>m_errors := m_errors st @
                   [createTypeError (contract_location cdef)
                      ''Linearization of inheritance graph impossible'']\<rparr>)"
      by (simp add: reportFatalTypeError_def)
    with stuck True
    have impossible: "(\<forall>n \<in> set (baseContracts cdef). baseResolved ast st n)
          \<and> (\<exists>toMerge. mergeReaches (mergeInput ast st C) toMerge \<and> toMerge \<noteq> []
                \<and> noCandidate toMerge)
          \<and> linearizeBaseContracts ast C st =
              (Inl FatalError,
               st\<lparr>m_errors := m_errors st @
                   [createTypeError (contract_location cdef)
                      ''Linearization of inheritance graph impossible'']\<rparr>)"
      by blast
    show ?thesis
      by (rule conjI, rule disjI2, rule disjI2, rule disjI1, rule impossible, rule keep)
  next
    fix l
    assume run: "linearizeBaseContracts ast C st =
               (Inr (), st\<lparr>annotation := (annotation st)
                                (C := (annotation st C)
                                   \<lparr>linearizedBaseContracts := l,
                                    contractDependencies :=
                                      contractDependencies (annotation st C) \<union> set (tl l)\<rparr>)\<rparr>)"
      and l: "l \<noteq> []" "hd l = C" "distinct l"
        "\<forall>d \<in> set l. \<forall>b \<in> set (directBases ast d). precedes d b l"
      and free: "\<forall>toMerge. mergeReaches (mergeInput ast st C) toMerge
                \<longrightarrow> toMerge = [] \<or> \<not> noCandidate toMerge"
    have edges: "\<forall>d \<in> set l. \<forall>b \<in> set (directBases ast d). b \<in> set l \<and> precedes d b l"
    proof (intro ballI conjI)
      fix d b
      assume "d \<in> set l" "b \<in> set (directBases ast d)"
      with l(4) show p: "precedes d b l" by blast
      from precedes_members [OF p] have "b \<in> set (tl l)" by simp
      with l(1) show "b \<in> set l" by (auto dest: list.set_sel(2))
    qed
    from run have keep: "linearizationInvariant ast (snd (linearizeBaseContracts ast C st))"
      by (simp add: linearizationInvariant_update [OF inv l])
    from run l(1-3) edges
    have "\<exists>l. l \<noteq> [] \<and> hd l = C \<and> distinct l
                \<and> (\<forall>d \<in> set l. \<forall>b \<in> set (directBases ast d). b \<in> set l \<and> precedes d b l)
                \<and> linearizeBaseContracts ast C st =
                    (Inr (),
                     st\<lparr>annotation := (annotation st)
                          (C := (annotation st C)
                             \<lparr>linearizedBaseContracts := l,
                              contractDependencies :=
                                contractDependencies (annotation st C) \<union> set (tl l)\<rparr>)\<rparr>)"
      by blast
    with True free
    have success: "(\<forall>n \<in> set (baseContracts cdef). baseResolved ast st n)
          \<and> (\<forall>toMerge. mergeReaches (mergeInput ast st C) toMerge
                \<longrightarrow> toMerge = [] \<or> \<not> noCandidate toMerge)
          \<and> (\<exists>l. l \<noteq> [] \<and> hd l = C \<and> distinct l
                \<and> (\<forall>d \<in> set l. \<forall>b \<in> set (directBases ast d). b \<in> set l \<and> precedes d b l)
                \<and> linearizeBaseContracts ast C st =
                    (Inr (),
                     st\<lparr>annotation := (annotation st)
                          (C := (annotation st C)
                             \<lparr>linearizedBaseContracts := l,
                              contractDependencies :=
                                contractDependencies (annotation st C) \<union> set (tl l)\<rparr>)\<rparr>))"
      by blast
    show ?thesis
      by (rule conjI, rule disjI2, rule disjI2, rule disjI2, rule success, rule keep)
  qed
qed

lemma diamond_invariant: "linearizationInvariant diamond_ast diamond_state"
  by (auto simp: linearizationInvariant_def linearized_def diamond_ast_def diamond_state_def
      directBases_def split: if_splits)

lemma diamond_linearize:
  "fst (linearizeBaseContracts diamond_ast 4 diamond_state) = Inr ()"
  "m_errors (snd (linearizeBaseContracts diamond_ast 4 diamond_state)) = []"
  "linearizedBaseContracts (annotation (snd (linearizeBaseContracts diamond_ast 4 diamond_state)) 4)
     = [4, 3, 2, 1]"
  "fst (linearizeBaseContracts diamond_ast 5 diamond_state) = Inl FatalError"
  "m_errors (snd (linearizeBaseContracts diamond_ast 5 diamond_state))
     = [createTypeError \<lparr>loc_start = 41, loc_end = 50\<rparr>
          ''Linearization of inheritance graph impossible'']"
  "linearizedBaseContracts (annotation (snd (linearizeBaseContracts diamond_ast 5 diamond_state)) 5)
     = []"
  by code_simp+

theorem linearizeBaseContracts_outcomes_witness:
  "fst (linearizeBaseContracts diamond_ast 4 diamond_state) = Inr ()
   \<and> m_errors (snd (linearizeBaseContracts diamond_ast 4 diamond_state)) = []
   \<and> linearizedBaseContracts (annotation (snd (linearizeBaseContracts diamond_ast 4 diamond_state)) 4)
       = [4, 3, 2, 1]
   \<and> linearizationInvariant diamond_ast (snd (linearizeBaseContracts diamond_ast 4 diamond_state))
   \<and> fst (linearizeBaseContracts diamond_ast 5 diamond_state) = Inl FatalError
   \<and> m_errors (snd (linearizeBaseContracts diamond_ast 5 diamond_state))
       = [createTypeError \<lparr>loc_start = 41, loc_end = 50\<rparr>
            ''Linearization of inheritance graph impossible'']
   \<and> linearizedBaseContracts (annotation (snd (linearizeBaseContracts diamond_ast 5 diamond_state)) 5)
       = []
   \<and> linearizationInvariant diamond_ast (snd (linearizeBaseContracts diamond_ast 5 diamond_state))"
proof -
  have c4: "diamond_ast 4 = Some \<lparr>contract_location = \<lparr>loc_start = 31, loc_end = 40\<rparr>,
        baseContracts = [\<lparr>id_location = \<lparr>loc_start = 35, loc_end = 36\<rparr>, referencedDeclaration = Some 2, contractScope = None\<rparr>,
                         \<lparr>id_location = \<lparr>loc_start = 37, loc_end = 38\<rparr>, referencedDeclaration = Some 3, contractScope = None\<rparr>]\<rparr>"
    and c5: "diamond_ast 5 = Some \<lparr>contract_location = \<lparr>loc_start = 41, loc_end = 50\<rparr>,
        baseContracts = [\<lparr>id_location = \<lparr>loc_start = 45, loc_end = 46\<rparr>, referencedDeclaration = Some 2, contractScope = None\<rparr>,
                         \<lparr>id_location = \<lparr>loc_start = 47, loc_end = 48\<rparr>, referencedDeclaration = Some 1, contractScope = None\<rparr>]\<rparr>"
    by (simp_all add: diamond_ast_def)
  note i = diamond_invariant
  from linearizeBaseContracts_outcomes [OF c4 i] linearizeBaseContracts_outcomes [OF c5 i]
  have "linearizationInvariant diamond_ast (snd (linearizeBaseContracts diamond_ast 4 diamond_state))"
    and "linearizationInvariant diamond_ast (snd (linearizeBaseContracts diamond_ast 5 diamond_state))"
    by blast+
  with diamond_linearize show ?thesis by simp
qed




section \<open>Properties of the statement and expression checks\<close>

text \<open>
  C6, as stated, fails on the code: a return statement without an expression is left
  at once, so that no diagnostic is emitted in a function that declares two return
  parameters.
\<close>

theorem return_statement_counterexample:
  "endVisit_Return (\<lambda>t t'. isImplicitlyConvertibleTo t (Integer t')) (\<lambda>t. ''integer'')
     \<lparr>return_location = \<lparr>loc_start = 40, loc_end = 47\<rparr>,
      return_expression = None,
      functionReturnParameters = Some
        [\<lparr>var_location = \<lparr>loc_start = 20, loc_end = 24\<rparr>,
          var_type = Some \<lparr>m_bits = 256, m_modifier = UNSIGNED\<rparr>\<rparr>,
         \<lparr>var_location = \<lparr>loc_start = 26, loc_end = 30\<rparr>,
          var_type = Some \<lparr>m_bits = 256, m_modifier = UNSIGNED\<rparr>\<rparr>]\<rparr> []
   = (Inr (), [])"
  by (simp add: endVisit_Return_def)

text \<open>
  C6, amended. A return statement without an expression emits no diagnostic, whatever
  return parameters the function declares. With an expression, a TypeError is
  emitted (appended by the \<open>TypeChecker\<close>, thrown by AST.cpp) unless the function
  declares exactly one return parameter and the type of the expression is implicitly
  convertible to its type: "Return arguments not allowed." without a return parameter
  list, "Different number of arguments in return statement than in returns
  declaration." when the list does not have exactly one parameter, and the conversion
  error at the expression otherwise.
\<close>

theorem return_statement:
  "(return_expression ret = None \<longrightarrow>
      endVisit_Return convertible toString ret errors = (Inr (), errors)
      \<and> Return_checkTypeRequirements convertible toString check ret = Inr ())
   \<and> (return_expression ret = Some e \<and> functionReturnParameters ret = None \<longrightarrow>
      endVisit_Return convertible toString ret errors =
        (Inr (), errors @ [createTypeError (return_location ret) ''Return arguments not allowed.''])
      \<and> Return_checkTypeRequirements convertible toString check ret =
          Inl (Thrown (createTypeError (return_location ret) ''Return arguments not allowed.'')))
   \<and> (return_expression ret = Some e \<and> functionReturnParameters ret = Some params
       \<and> length params \<noteq> 1 \<longrightarrow>
      endVisit_Return convertible toString ret errors =
        (Inr (), errors @ [createTypeError (return_location ret)
           ''Different number of arguments in return statement than in returns declaration.''])
      \<and> Return_checkTypeRequirements convertible toString check ret =
          Inl (Thrown (createTypeError (return_location ret)
           ''Different number of arguments in return statement than in returns declaration.'')))
   \<and> (return_expression ret = Some e \<and> functionReturnParameters ret = Some [v]
       \<and> var_type v = Some expected \<and> expr_type e = Some t \<and> check e = Inr t \<longrightarrow>
      (convertible t expected \<longrightarrow>
         endVisit_Return convertible toString ret errors = (Inr (), errors)
         \<and> Return_checkTypeRequirements convertible toString check ret = Inr ())
      \<and> (\<not> convertible t expected \<longrightarrow>
         endVisit_Return convertible toString ret errors =
            (Inr (), errors @ [createTypeError (expr_location e)
                                (return_type_message toString t expected)])
         \<and> Return_checkTypeRequirements convertible toString check ret =
            Inl (Thrown (createTypeError (expr_location e)
                   (expected_type_message toString t expected)))))"
  by (simp add: endVisit_Return_def Return_checkTypeRequirements_def typeError_def
      type_of_def expectType_def)

theorem return_statement_witness:
  "endVisit_Return (\<lambda>t t'. isImplicitlyConvertibleTo t (Integer t')) (\<lambda>t. ''integer'')
     example_return []
   = (Inr (), [createTypeError \<lparr>loc_start = 40, loc_end = 48\<rparr>
        ''Different number of arguments in return statement than in returns declaration.''])
   \<and> endVisit_Return (\<lambda>t t'. isImplicitlyConvertibleTo t (Integer t')) (\<lambda>t. ''integer'')
     (example_return\<lparr>return_expression := None\<rparr>) [] = (Inr (), [])"
  using return_statement
    [where ret = example_return and errors = "[]"
       and e = "\<lparr>expr_location = \<lparr>loc_start = 47, loc_end = 48\<rparr>, expr_type = Some uint256\<rparr>"
       and params = "[\<lparr>var_location = \<lparr>loc_start = 20, loc_end = 24\<rparr>, var_type = Some uint256\<rparr>,
         \<lparr>var_location = \<lparr>loc_start = 26, loc_end = 30\<rparr>, var_type = Some uint256\<rparr>]"
       and convertible = "\<lambda>t t'. isImplicitlyConvertibleTo t (Integer t')"
       and toString = "\<lambda>t. ''integer''"]
    return_statement
    [where ret = "example_return\<lparr>return_expression := None\<rparr>" and errors = "[]"
       and convertible = "\<lambda>t t'. isImplicitlyConvertibleTo t (Integer t')"
       and toString = "\<lambda>t. ''integer''"]
  by (simp add: example_return_def)

text \<open>
  C9, as stated, fails on \<open>NewExpression::checkTypeRequirements\<close>: for \<open>new S\<close> inside an
  abstract contract \<open>S\<close> it throws the error of the abstract contract, and the error
  of the circular reference is never emitted.
\<close>

theorem new_expression_counterexample:
  "NewExpression_checkTypeRequirements
     (\<lambda>p. if p = 1 then Some \<lparr>contract_location = \<lparr>loc_start = 0, loc_end = 60\<rparr>,
                               baseContracts = []\<rparr> else None)
     (\<lambda>p. False)
     (\<lambda>p. \<lparr>linearizedBaseContracts = (if p = 1 then [1] else []), contractDependencies = {},
            isFullyImplemented = False\<rparr>)
     \<lparr>new_location = \<lparr>loc_start = 40, loc_end = 47\<rparr>,
      contractName = \<lparr>id_location = \<lparr>loc_start = 44, loc_end = 45\<rparr>,
                      referencedDeclaration = Some 1, contractScope = Some 1\<rparr>\<rparr>
   = Inl (Thrown (createTypeError \<lparr>loc_start = 40, loc_end = 47\<rparr>
                    ''Trying to create an instance of an abstract contract.''))"
  by (simp add: NewExpression_checkTypeRequirements_def Identifier_checkTypeRequirements_def
      dynamic_cast_ContractDefinition_def abstract_message_def)

text \<open>
  C9, amended. For a new-expression \<open>new C\<close> inside a contract \<open>S\<close>, where \<open>C\<close> is a
  contract: \<open>TypeChecker::endVisit\<close> appends the TypeError "Circular reference for
  contract creation: cannot create instance of derived or same contract." exactly when
  \<open>S\<close> occurs in the linearized base contracts of \<open>C\<close> (after the error of an abstract
  \<open>C\<close>, if any, and nothing else); \<open>NewExpression::checkTypeRequirements\<close> throws it
  exactly when \<open>C\<close> is fully implemented and \<open>S\<close> occurs in the linearized base contracts
  of \<open>C\<close>.
\<close>

theorem new_expression:
  assumes "referencedDeclaration (contractName e) = Some c" and "ast c = Some cdef"
  shows "snd (endVisit_NewExpression ast annotations e errors) =
           errors
           @ (if isFullyImplemented (annotations c) then []
              else [createTypeError (new_location e) abstract_message])
           @ (if found_in (linearizedBaseContracts (annotations c)) (contractScope (contractName e))
              then [createTypeError (new_location e) circular_message] else [])
     \<and> (NewExpression_checkTypeRequirements ast hasType annotations e =
           Inl (Thrown (createTypeError (new_location e) circular_message))
         \<longleftrightarrow> isFullyImplemented (annotations c)
             \<and> found_in (linearizedBaseContracts (annotations c)) (contractScope (contractName e)))"
  using assms
  by (auto simp: endVisit_NewExpression_def NewExpression_checkTypeRequirements_def
      Identifier_checkTypeRequirements_def dynamic_cast_ContractDefinition_def Let_def
      typeError_def found_in_def createTypeError_def abstract_message_def circular_message_def
      split: option.splits)

theorem new_expression_witness:
  "snd (endVisit_NewExpression example_contracts example_annotations example_new []) =
     [createTypeError \<lparr>loc_start = 40, loc_end = 47\<rparr> circular_message]
   \<and> NewExpression_checkTypeRequirements example_contracts (\<lambda>p. False) example_annotations
       example_new
     = Inl (Thrown (createTypeError \<lparr>loc_start = 40, loc_end = 47\<rparr> circular_message))"
  using new_expression
    [where e = example_new and c = 2 and ast = example_contracts
       and annotations = example_annotations and errors = "[]" and hasType = "\<lambda>p. False"
       and cdef = "\<lparr>contract_location = \<lparr>loc_start = 61, loc_end = 90\<rparr>,
        baseContracts = [\<lparr>id_location = \<lparr>loc_start = 75, loc_end = 76\<rparr>,
                          referencedDeclaration = Some 1, contractScope = None\<rparr>]\<rparr>"]
  by (simp add: example_new_def example_contracts_def example_annotations_def found_in_def)

text \<open>
  C8, as stated, fails on the code: the element of a memory array is annotated as an
  lvalue.
\<close>

theorem index_access_counterexample:
  "visit_IndexAccess (\<lambda>t t'. True) (\<lambda>t. ''type'') (\<lambda>e errors. (Inr (), errors))
     \<lparr>access_location = \<lparr>loc_start = 10, loc_end = 14\<rparr>,
      baseExpression = \<lparr>expr_location = \<lparr>loc_start = 10, loc_end = 11\<rparr>,
                        expr_type = Some (ArrayC Memory Ordinary (IntegerC 256) None)\<rparr>,
      indexExpression = Some \<lparr>expr_location = \<lparr>loc_start = 12, loc_end = 13\<rparr>,
                               expr_type = Some (IntegerC 256)\<rparr>\<rparr> []
   = (Inr \<lparr>ia_type = Some (IntegerC 256), ia_isLValue = True\<rparr>, [])"
  by (simp add: visit_IndexAccess_def bind_tc_def typed_tc_def type_of_def
      TypeChecker_expectType_def)

lemma bind_tc_Inr:
  "bind_tc r f = (Inr b, errors') \<Longrightarrow> \<exists>a errors1. r = (Inr a, errors1) \<and> f a errors1 = (Inr b, errors')"
  by (cases r) (auto simp: bind_tc_def split: sum.splits)

lemma not_CallData: "(location \<noteq> CallData) = (location = Storage \<or> location = Memory)"
  by (cases location) auto

text \<open>
  C8, amended. An index access that passes the check is annotated as an lvalue if and
  only if its base is a mapping or an array whose data location is storage or memory
  (any location but calldata); the element of a calldata array and an array type
  expression are not lvalues.
\<close>

theorem index_access_lvalue:
  assumes "expr_type (baseExpression access) = Some baseType"
    and "checkTypeRequirements (baseExpression access) = Inr baseType"
  shows "(visit_IndexAccess convertible toString accept access errors = (Inr ann, errors')
           \<longrightarrow> (ia_isLValue ann \<longleftrightarrow>
                  (case baseType of ArrayC location _ _ _ \<Rightarrow> location = Storage \<or> location = Memory
                   | MappingC _ _ \<Rightarrow> True | _ \<Rightarrow> False)))
       \<and> (IndexAccess_checkTypeRequirements convertible toString checkTypeRequirements access
             = Inr ann'
           \<longrightarrow> (ia_isLValue ann' \<longleftrightarrow>
                  (case baseType of ArrayC location _ _ _ \<Rightarrow> location = Storage \<or> location = Memory
                   | MappingC _ _ \<Rightarrow> True | _ \<Rightarrow> False)))"
proof (intro conjI impI)
  assume "visit_IndexAccess convertible toString accept access errors = (Inr ann, errors')"
  then show "ia_isLValue ann \<longleftrightarrow>
                  (case baseType of ArrayC location _ _ _ \<Rightarrow> location = Storage \<or> location = Memory
                   | MappingC _ _ \<Rightarrow> True | _ \<Rightarrow> False)"
    using assms(1)
    by (cases baseType)
      (auto simp: visit_IndexAccess_def typed_tc_def type_of_def fatalTypeError_def not_CallData
        dest!: bind_tc_Inr split: option.splits TypeC.splits)
next
  assume "IndexAccess_checkTypeRequirements convertible toString checkTypeRequirements access
             = Inr ann'"
  then show "ia_isLValue ann' \<longleftrightarrow>
                  (case baseType of ArrayC location _ _ _ \<Rightarrow> location = Storage \<or> location = Memory
                   | MappingC _ _ \<Rightarrow> True | _ \<Rightarrow> False)"
    using assms(2)
    by (cases baseType)
      (auto simp: IndexAccess_checkTypeRequirements_def throwTypeError_def not_CallData
        split: option.splits TypeC.splits sum.splits if_splits)
qed

theorem index_access_lvalue_witness:
  "visit_IndexAccess (\<lambda>t t'. True) (\<lambda>t. ''type'') (\<lambda>e errors. (Inr (), errors))
     (example_access CallData) []
   = (Inr \<lparr>ia_type = Some (IntegerC 256), ia_isLValue = False\<rparr>, [])
   \<and> \<not> ia_isLValue \<lparr>ia_type = Some (IntegerC 256), ia_isLValue = False\<rparr>"
proof -
  have run: "visit_IndexAccess (\<lambda>t t'. True) (\<lambda>t. ''type'') (\<lambda>e errors. (Inr (), errors))
     (example_access CallData) []
   = (Inr \<lparr>ia_type = Some (IntegerC 256), ia_isLValue = False\<rparr>, [])"
    by (simp add: visit_IndexAccess_def bind_tc_def typed_tc_def type_of_def
        TypeChecker_expectType_def example_access_def)
  have b: "expr_type (baseExpression (example_access CallData))
             = Some (ArrayC CallData Ordinary (IntegerC 256) None)"
    by (simp add: example_access_def)
  from index_access_lvalue
    [where access = "example_access CallData"
       and baseType = "ArrayC CallData Ordinary (IntegerC 256) None"
       and checkTypeRequirements = "\<lambda>e. type_of (expr_type e)"
       and convertible = "\<lambda>t t'. True" and toString = "\<lambda>t. ''type''"
       and accept = "\<lambda>e errors. (Inr (), errors)" and errors = "[]" and errors' = "[]"
       and ann = "\<lparr>ia_type = Some (IntegerC 256), ia_isLValue = False\<rparr>"]
    b run
  show ?thesis by simp
qed

section \<open>Properties of the declaration registration\<close>

text \<open>
  C7, as stated, fails on the code: when \<open>x\<close> is declared at position 10 and again at
  position 20, the primary source location of the DeclarationError is the second, later
  declaration, and the earlier one is the secondary location.
\<close>

theorem registerDeclaration_counterexample:
  "registrationErrors (snd (registerDeclaration (example_x 20) False (example_scope 10)))
   = [\<lparr>errorType = DeclarationError,
       sourceLocation = Some \<lparr>loc_start = 20, loc_end = 26\<rparr>,
       comment = ''Identifier already declared.'',
       secondarySourceLocation =
         [(''The previous declaration is here:'', \<lparr>loc_start = 10, loc_end = 16\<rparr>)]\<rparr>]"
  by (simp add: registerDeclaration_def DeclarationContainer_registerDeclaration_def
      conflictingDeclaration_def mayShareName_def scopeAt_def example_x_def example_scope_def
      declarationError_def Let_def)

text \<open>
  C7, amended. When the current scope holds a declaration that conflicts with the one
  being registered, \<open>registerDeclaration\<close> appends exactly one DeclarationError
  "Identifier already declared."; its primary source location is the one of the two
  declarations that starts later in the source (the declaration being registered when
  both start at the same position), and the other, earlier declaration is the secondary
  location "The previous declaration is here:".
\<close>

theorem registerDeclaration_conflict:
  assumes "conflictingDeclaration (scopeAt helper (m_currentScope helper)) declaration
             = Some conflicting"
  shows "\<exists>primary secondary.
     registrationErrors (snd (registerDeclaration declaration opensScope helper))
       = registrationErrors helper
         @ [\<lparr>errorType = DeclarationError, sourceLocation = Some primary,
             comment = ''Identifier already declared.'',
             secondarySourceLocation = [(''The previous declaration is here:'', secondary)]\<rparr>]
     \<and> {primary, secondary} = {decl_location declaration, decl_location conflicting}
     \<and> loc_start secondary \<le> loc_start primary
     \<and> (loc_start (decl_location declaration) = loc_start (decl_location conflicting)
          \<longrightarrow> primary = decl_location declaration)"
  using assms
  by (auto simp: registerDeclaration_def DeclarationContainer_registerDeclaration_def
      declarationError_def enterNewSubScope_def Let_def split: prod.splits)

theorem registerDeclaration_conflict_witness:
  "registrationErrors (snd (registerDeclaration (example_x 5) False (example_scope 10)))
   = [\<lparr>errorType = DeclarationError,
       sourceLocation = Some \<lparr>loc_start = 10, loc_end = 16\<rparr>,
       comment = ''Identifier already declared.'',
       secondarySourceLocation =
         [(''The previous declaration is here:'', \<lparr>loc_start = 5, loc_end = 11\<rparr>)]\<rparr>]"
proof -
  have c: "conflictingDeclaration (scopeAt (example_scope 10) (m_currentScope (example_scope 10)))
             (example_x 5) = Some (example_x 10)"
    by (simp add: conflictingDeclaration_def mayShareName_def scopeAt_def example_x_def
        example_scope_def)
  from registerDeclaration_conflict [OF c, of False]
  obtain primary secondary where
    e: "registrationErrors (snd (registerDeclaration (example_x 5) False (example_scope 10)))
       = registrationErrors (example_scope 10)
         @ [\<lparr>errorType = DeclarationError, sourceLocation = Some primary,
             comment = ''Identifier already declared.'',
             secondarySourceLocation = [(''The previous declaration is here:'', secondary)]\<rparr>]"
    and s: "{primary, secondary} = {decl_location (example_x 5), decl_location (example_x 10)}"
    and l: "loc_start secondary \<le> loc_start primary"
    by blast
  from s l have "primary = \<lparr>loc_start = 10, loc_end = 16\<rparr> \<and> secondary = \<lparr>loc_start = 5, loc_end = 11\<rparr>"
    by (auto simp: example_x_def doubleton_eq_iff)
  with e show ?thesis by (simp add: example_scope_def)
qed

section \<open>Properties of the struct recursion check\<close>

lemma for_each_Inr_iff: "for_each f xs = Inr u \<longleftrightarrow> (\<forall>x \<in> set xs. f x = Inr ())"
  by (induction xs) (auto split: sum.splits)

lemma for_each_Inl: "for_each f xs = Inl e \<Longrightarrow> \<exists>x \<in> set xs. f x = Inl e"
  by (induction xs) (auto split: sum.splits)

lemma check_Inr_step:
  assumes "checkRecursion_check structs s P = Inr ()"
  shows "s \<notin> P" and "struct_edge structs s t \<Longrightarrow> checkRecursion_check structs t (insert s P) = Inr ()"
proof -
  from assms obtain sd where sd: "map_of structs s = Some sd"
    by (subst (asm) checkRecursion_check.simps) (auto split: option.splits)
  from assms sd show notin: "s \<notin> P"
    by (subst (asm) checkRecursion_check.simps) (auto split: if_splits)
  from assms sd notin have all: "\<forall>m \<in> set (members sd).
      (case member_type m of
         StructByValue referenced \<Rightarrow> checkRecursion_check structs referenced (insert s P)
       | OtherMemberType \<Rightarrow> Inr ()) = Inr ()"
    by (subst (asm) checkRecursion_check.simps) (simp add: for_each_Inr_iff)
  assume "struct_edge structs s t"
  with sd obtain m where "m \<in> set (members sd)" "member_type m = StructByValue t"
    by (auto simp: struct_edge_def)
  with all show "checkRecursion_check structs t (insert s P) = Inr ()" by force
qed

lemma check_Inr_reachable_notin:
  "(struct_edge structs)\<^sup>*\<^sup>* s t \<Longrightarrow> checkRecursion_check structs s P = Inr () \<Longrightarrow> t \<notin> P"
proof (induction arbitrary: P rule: converse_rtranclp_induct)
  case base
  then show ?case by (rule check_Inr_step(1))
next
  case (step s u)
  from check_Inr_step(2) [OF step.prems step.hyps(1)]
  have "t \<notin> insert s P" by (rule step.IH)
  then show ?case by simp
qed

lemma check_Inr_reachable:
  "(struct_edge structs)\<^sup>*\<^sup>* s t \<Longrightarrow> checkRecursion_check structs s P = Inr () \<Longrightarrow>
   \<exists>P'. checkRecursion_check structs t P' = Inr ()"
proof (induction arbitrary: P rule: converse_rtranclp_induct)
  case base
  then show ?case by blast
next
  case (step s u)
  from check_Inr_step(2) [OF step.prems step.hyps(1)] show ?case by (rule step.IH)
qed

lemma check_cycle_not_Inr:
  assumes "(struct_edge structs)\<^sup>*\<^sup>* s t" and "(struct_edge structs)\<^sup>+\<^sup>+ t t"
  shows "checkRecursion_check structs s P \<noteq> Inr ()"
proof
  assume "checkRecursion_check structs s P = Inr ()"
  with assms(1) obtain P' where P': "checkRecursion_check structs t P' = Inr ()"
    by (blast dest: check_Inr_reachable)
  from assms(2) obtain u where u: "struct_edge structs t u" "(struct_edge structs)\<^sup>*\<^sup>* u t"
    by (blast dest: tranclpD)
  from check_Inr_step(2) [OF P' u(1)] u(2) have "t \<notin> insert t P'"
    by (blast dest: check_Inr_reachable_notin)
  then show False by simp
qed

lemma check_outcome:
  "closed_structs structs \<Longrightarrow> s \<in> fst ` set structs \<Longrightarrow>
   checkRecursion_check structs s P = Inr ()
   \<or> (\<exists>loc. checkRecursion_check structs s P = Inl (Thrown (recursive_struct ParserError loc)))"
proof (induction structs s P rule: checkRecursion_check.induct)
  case (1 structs s P)
  from "1.prems"(2) obtain sd where sd: "map_of structs s = Some sd"
    by (metis domD dom_map_of_conv_image_fst)
  then have sd_in: "sd \<in> snd ` set structs" by (metis map_of_SomeD snd_conv image_eqI)
  show ?case
  proof (cases "s \<in> P")
    case True
    with sd show ?thesis by (subst checkRecursion_check.simps) auto
  next
    case False
    let ?f = "\<lambda>member. case member_type member of
                    StructByValue referenced \<Rightarrow>
                      checkRecursion_check structs referenced (insert s P)
                  | OtherMemberType \<Rightarrow> Inr ()"
    from sd False have eq: "checkRecursion_check structs s P = for_each ?f (members sd)"
      by (subst checkRecursion_check.simps) simp
    show ?thesis
    proof (cases "for_each ?f (members sd)")
      case (Inr u)
      with eq show ?thesis by simp
    next
      case (Inl e)
      then obtain m where m: "m \<in> set (members sd)" "?f m = Inl e"
        by (blast dest: for_each_Inl)
      then obtain t where t: "member_type m = StructByValue t"
        by (cases "member_type m") auto
      with m(1) sd_in "1.prems"(1) have "t \<in> fst ` set structs"
        by (force simp: closed_structs_def)
      from "1.IH" [OF sd False m(1) t "1.prems"(1) this] m(2) t
      obtain loc where "e = Thrown (recursive_struct ParserError loc)" by auto
      with eq Inl show ?thesis by auto
    qed
  qed
qed

lemma for_each_tc_as_fatal:
  "(\<And>x errors. x \<in> set xs \<Longrightarrow> g x errors = as_fatal (f x) errors) \<Longrightarrow>
   for_each_tc g xs errors = as_fatal (for_each f xs) errors"
  by (induction xs arbitrary: errors)
    (auto simp: as_fatal_def bind_tc_def split: sum.splits exn.splits)

lemma TypeChecker_check_as_fatal:
  "TypeChecker_check structs s P errors = as_fatal (checkRecursion_check structs s P) errors"
proof (induction structs s P errors rule: TypeChecker_check.induct)
  case (1 structs s P errors)
  show ?case
  proof (cases "map_of structs s")
    case None
    then show ?thesis
      by (subst TypeChecker_check.simps, subst checkRecursion_check.simps)
        (simp add: as_fatal_def)
  next
    case (Some sd)
    show ?thesis
    proof (cases "s \<in> P")
      case True
      with Some show ?thesis
        by (subst TypeChecker_check.simps, subst checkRecursion_check.simps)
          (simp add: as_fatal_def fatalTypeError_def typeError_def recursive_struct_def
            createTypeError_def)
    next
      case False
      have "for_each_tc
                 (\<lambda>member errors. case member_type member of
                    StructByValue referenced \<Rightarrow>
                      TypeChecker_check structs referenced (insert s P) errors
                  | OtherMemberType \<Rightarrow> (Inr (), errors))
                 (members sd) errors
            = as_fatal (for_each
                 (\<lambda>member. case member_type member of
                    StructByValue referenced \<Rightarrow>
                      checkRecursion_check structs referenced (insert s P)
                  | OtherMemberType \<Rightarrow> Inr ())
                 (members sd)) errors"
      proof (rule for_each_tc_as_fatal)
        fix x errors' assume "x \<in> set (members sd)"
        with "1.IH" [OF Some False this]
        show "(case member_type x of
                    StructByValue referenced \<Rightarrow>
                      TypeChecker_check structs referenced (insert s P) errors'
                  | OtherMemberType \<Rightarrow> (Inr (), errors'))
              = as_fatal (case member_type x of
                    StructByValue referenced \<Rightarrow>
                      checkRecursion_check structs referenced (insert s P)
                  | OtherMemberType \<Rightarrow> Inr ()) errors'"
          by (cases "member_type x") (auto simp: as_fatal_def)
      qed
      with Some False show ?thesis
        by (subst TypeChecker_check.simps, subst checkRecursion_check.simps) simp
    qed
  qed
qed

lemma member_loop:
  "for_each_tc
     (\<lambda>member errors.
        if \<not> canBeStored member
        then (Inr (), typeError (member_location member) ''Type cannot be used in struct.'' errors)
        else (Inr (), errors)) ms errors
   = (Inr (), errors @ member_errors ms)"
  by (induction ms arbitrary: errors) (auto simp: bind_tc_def typeError_def member_errors_def)

text \<open>
  C5, as stated, fails on \<open>TypeChecker::visit(StructDefinition)\<close>: for
  \<open>struct S { S next; }\<close> the diagnostic it emits before throwing \<open>FatalError\<close> is a
  TypeError, not a ParserError.
\<close>

theorem recursive_struct_counterexample:
  "visit_StructDefinition (\<lambda>member errors. (Inr (), errors))
     [(1, \<lparr>struct_location = \<lparr>loc_start = 0, loc_end = 20\<rparr>,
           members = [\<lparr>member_location = \<lparr>loc_start = 11, loc_end = 17\<rparr>,
                       member_type = StructByValue 1, canBeStored = True\<rparr>]\<rparr>)] 1 []
   = (Inl FatalError,
      [\<lparr>errorType = TypeError, sourceLocation = Some \<lparr>loc_start = 0, loc_end = 20\<rparr>,
        comment = ''Recursive struct definition.'', secondarySourceLocation = []\<rparr>])"
  by (simp add: visit_StructDefinition_def TypeChecker_check.simps bind_tc_def
      fatalTypeError_def typeError_def createTypeError_def)

text \<open>
  C5, amended. Let the struct \<open>S\<close> reach, through fields that hold a struct by value, a
  struct \<open>T\<close> that reaches itself through at least one such field (all structs held by
  value being defined). Then \<open>StructDefinition::checkRecursion\<close> throws a ParserError
  with the message "Recursive struct definition.", and
  \<open>TypeChecker::visit(StructDefinition)\<close> appends, after the errors of the members that
  cannot be stored, a TypeError with the same message and location and throws
  \<open>FatalError\<close>.
\<close>

theorem recursive_struct_reported:
  assumes "closed_structs structs" and "map_of structs S = Some structDef"
    and "(struct_edge structs)\<^sup>*\<^sup>* S T" and "(struct_edge structs)\<^sup>+\<^sup>+ T T"
  shows "\<exists>loc. checkRecursion structs S = Inl (Thrown (recursive_struct ParserError loc))
     \<and> visit_StructDefinition accept structs S errors
         = (Inl FatalError,
            errors @ member_errors (members structDef) @ [recursive_struct TypeError loc])"
proof -
  from assms(2) have "S \<in> fst ` set structs" by (metis map_of_SomeD fst_conv image_eqI)
  from check_outcome [OF assms(1) this, of "{}"] check_cycle_not_Inr [OF assms(3,4), of "{}"]
  obtain loc where loc: "checkRecursion_check structs S {} = Inl (Thrown (recursive_struct ParserError loc))"
    by blast
  then have "visit_StructDefinition accept structs S errors
         = (Inl FatalError,
            errors @ member_errors (members structDef) @ [recursive_struct TypeError loc])"
    using assms(2)
    by (simp add: visit_StructDefinition_def member_loop bind_tc_def TypeChecker_check_as_fatal
        as_fatal_def recursive_struct_def)
  with loc show ?thesis by (auto simp: checkRecursion_def)
qed

theorem recursive_struct_reported_witness:
  "\<exists>loc. checkRecursion example_structs 1 = Inl (Thrown (recursive_struct ParserError loc))
     \<and> visit_StructDefinition (\<lambda>member errors. (Inr (), errors)) example_structs 1 []
         = (Inl FatalError, [recursive_struct TypeError loc])"
proof -
  have c: "closed_structs example_structs"
    by (simp add: closed_structs_def example_structs_def)
  have m: "map_of example_structs 1 =
      Some \<lparr>struct_location = \<lparr>loc_start = 0, loc_end = 20\<rparr>,
           members = [\<lparr>member_location = \<lparr>loc_start = 11, loc_end = 17\<rparr>,
                       member_type = StructByValue 2, canBeStored = True\<rparr>]\<rparr>"
    by (simp add: example_structs_def)
  have e12: "struct_edge example_structs 1 2" and e21: "struct_edge example_structs 2 1"
    by (simp_all add: struct_edge_def example_structs_def)
  then have cyc: "(struct_edge example_structs)\<^sup>+\<^sup>+ 1 1"
    by (rule tranclp.trancl_into_trancl [OF tranclp.r_into_trancl])
  have r: "(struct_edge example_structs)\<^sup>*\<^sup>* 1 1" by simp
  from recursive_struct_reported [OF c m r cyc, of "\<lambda>member errors. (Inr (), errors)" "[]"]
  show ?thesis by (simp add: member_errors_def)
qed

section \<open>Properties of the interface function list\<close>

lemma functionSignatures_append [simp]:
  "functionSignatures (xs @ ys) = functionSignatures xs @ functionSignatures ys"
  by (induction xs rule: functionSignatures.induct) auto

lemma addFunctions_inv:
  "seen_inv st \<Longrightarrow>
   seen_inv (addFunctions hash4 fs st)
   \<and> signaturesSeen (addFunctions hash4 fs st) =
       signaturesSeen st \<union> {function_externalSignature f | f. f \<in> set fs \<and> function_isPartOfExternalInterface f}"
proof (induction fs arbitrary: st)
  case Nil
  then show ?case by simp
next
  case (Cons f fs)
  show ?case
  proof (cases "function_isPartOfExternalInterface f \<and> function_externalSignature f \<notin> signaturesSeen st")
    case True
    let ?st = "\<lparr>functionsSeen = insert (function_name f) (functionsSeen st),
                      signaturesSeen = insert (function_externalSignature f) (signaturesSeen st),
                      m_interfaceFunctionList = m_interfaceFunctionList st
                        @ [(hash4 (function_externalSignature f), OfFunction f)]\<rparr>"
    from Cons.prems True have "seen_inv ?st" by (auto simp: seen_inv_def)
    from Cons.IH [OF this] True show ?thesis by (auto simp: Let_def)
  next
    case False
    with Cons.IH [OF Cons.prems] show ?thesis by (auto simp: Let_def)
  qed
qed

lemma addVariables_inv:
  "functionSignatures (m_interfaceFunctionList (addVariables hash4 vs st)) =
     functionSignatures (m_interfaceFunctionList st)
   \<and> signaturesSeen (addVariables hash4 vs st) = signaturesSeen st"
  by (induction vs arbitrary: st) auto

lemma addContracts_inv:
  "seen_inv st \<Longrightarrow>
   seen_inv (addContracts hash4 contracts st)
   \<and> signaturesSeen (addContracts hash4 contracts st) =
       signaturesSeen st \<union> externalFunctionSignatures contracts"
proof (induction contracts arbitrary: st)
  case Nil
  then show ?case by (simp add: externalFunctionSignatures_def)
next
  case (Cons c contracts)
  let ?st1 = "addFunctions hash4 (definedFunctions c) st"
  let ?st2 = "addVariables hash4 (stateVariables c) ?st1"
  from addFunctions_inv [OF Cons.prems, of hash4 "definedFunctions c"]
  have 1: "seen_inv ?st1" and s1: "signaturesSeen ?st1 =
       signaturesSeen st \<union> {function_externalSignature f | f. f \<in> set (definedFunctions c) \<and> function_isPartOfExternalInterface f}"
    by auto
  from 1 addVariables_inv [of hash4 "stateVariables c" ?st1]
  have 2: "seen_inv ?st2" and s2: "signaturesSeen ?st2 = signaturesSeen ?st1"
    by (auto simp: seen_inv_def)
  from Cons.IH [OF 2] s1 s2 show ?case
    by (auto simp: externalFunctionSignatures_def)
qed

lemma hashed_snoc:
  "hashed hash4 entries \<Longrightarrow> hashed hash4 (entries @ [(hash4 (externalSignature t), t)])"
  by (simp add: hashed_def)

lemma addFunctions_hashed:
  "hashed hash4 (m_interfaceFunctionList st) \<Longrightarrow>
   hashed hash4 (m_interfaceFunctionList (addFunctions hash4 fs st))"
proof (induction fs arbitrary: st)
  case Nil
  then show ?case by simp
next
  case (Cons f fs)
  from hashed_snoc [OF Cons.prems, of "OfFunction f"] Cons.prems show ?case
    by (auto simp: Let_def intro!: Cons.IH)
qed

lemma addVariables_hashed:
  "hashed hash4 (m_interfaceFunctionList st) \<Longrightarrow>
   hashed hash4 (m_interfaceFunctionList (addVariables hash4 vs st))"
proof (induction vs arbitrary: st)
  case Nil
  then show ?case by simp
next
  case (Cons v vs)
  from hashed_snoc [OF Cons.prems, of "OfVariable v"] Cons.prems show ?case
    by (auto intro!: Cons.IH)
qed

lemma addContracts_hashed:
  "hashed hash4 (m_interfaceFunctionList st) \<Longrightarrow>
   hashed hash4 (m_interfaceFunctionList (addContracts hash4 contracts st))"
  by (induction contracts arbitrary: st) (simp_all add: addFunctions_hashed addVariables_hashed)

lemma checkHashCollisions_errors:
  "\<exists>new. checkHashCollisions loc entries hashes errors = errors @ new
     \<and> (new \<noteq> [] \<longleftrightarrow> \<not> distinct (map fst entries) \<or> fst ` set entries \<inter> hashes \<noteq> {})
     \<and> (\<forall>e \<in> set new. errorType e = TypeError \<and> sourceLocation e = Some loc
           \<and> (\<exists>it \<in> set entries. comment e = collision_message (snd it)))"
proof (induction entries arbitrary: hashes errors)
  case Nil
  then show ?case by simp
next
  case (Cons it entries)
  let ?errors = "if fst it \<in> hashes then typeError loc (collision_message (snd it)) errors else errors"
  from Cons.IH [of "insert (fst it) hashes" ?errors]
  obtain new where new: "checkHashCollisions loc entries (insert (fst it) hashes) ?errors = ?errors @ new"
    "new \<noteq> [] \<longleftrightarrow> \<not> distinct (map fst entries) \<or> fst ` set entries \<inter> insert (fst it) hashes \<noteq> {}"
    "\<forall>e \<in> set new. errorType e = TypeError \<and> sourceLocation e = Some loc
           \<and> (\<exists>it \<in> set entries. comment e = collision_message (snd it))"
    by blast
  show ?case
  proof (cases "fst it \<in> hashes")
    case True
    with new have "checkHashCollisions loc (it # entries) hashes errors
                     = errors @ (createTypeError loc (collision_message (snd it)) # new)"
      by (simp add: typeError_def)
    moreover from True have "fst ` set (it # entries) \<inter> hashes \<noteq> {}" by auto
    moreover from new(3) have "\<forall>e \<in> set (createTypeError loc (collision_message (snd it)) # new).
        errorType e = TypeError \<and> sourceLocation e = Some loc
           \<and> (\<exists>it' \<in> set (it # entries). comment e = collision_message (snd it'))"
      by (auto simp: createTypeError_def)
    ultimately show ?thesis by blast
  next
    case False
    with new(1) have "checkHashCollisions loc (it # entries) hashes errors = errors @ new" by simp
    moreover from False new(2) have "new \<noteq> [] \<longleftrightarrow> \<not> distinct (map fst (it # entries))
        \<or> fst ` set (it # entries) \<inter> hashes \<noteq> {}"
      by auto
    moreover from new(3) have "\<forall>e \<in> set new. errorType e = TypeError \<and> sourceLocation e = Some loc
           \<and> (\<exists>it' \<in> set (it # entries). comment e = collision_message (snd it'))"
      by auto
    ultimately show ?thesis by blast
  qed
qed

lemma throwHashCollisions_Inr:
  "throwHashCollisions loc entries hashes = Inr ()
   \<longleftrightarrow> distinct (map fst entries) \<and> fst ` set entries \<inter> hashes = {}"
  by (induction entries arbitrary: hashes) (auto simp: throwTypeError_def)

lemma throwHashCollisions_Inl:
  "throwHashCollisions loc entries hashes = Inl x \<Longrightarrow>
   \<exists>it \<in> set entries. x = Thrown (createTypeError loc (collision_message (snd it)))"
  by (induction entries arbitrary: hashes) (auto simp: throwTypeError_def split: if_splits)

lemma subset_insert_shift: "A \<subseteq> insert x B \<union> C \<Longrightarrow> A \<subseteq> B \<union> insert x C"
  by blast

lemma subset_weaken: "A \<subseteq> B \<union> C \<Longrightarrow> C \<subseteq> D \<Longrightarrow> A \<subseteq> B \<union> D"
  by blast

lemma addFunctions_sources:
  "externalSignature ` snd ` set (m_interfaceFunctionList (addFunctions hash4 fs st))
   \<subseteq> externalSignature ` snd ` set (m_interfaceFunctionList st)
     \<union> {function_externalSignature f | f. f \<in> set fs \<and> function_isPartOfExternalInterface f}"
proof (induction fs arbitrary: st)
  case Nil
  then show ?case by simp
next
  case (Cons f fs)
  show ?case
  proof (cases "function_isPartOfExternalInterface f \<and> function_externalSignature f \<notin> signaturesSeen st")
    case True
    let ?st = "\<lparr>functionsSeen = insert (function_name f) (functionsSeen st),
                      signaturesSeen = insert (function_externalSignature f) (signaturesSeen st),
                      m_interfaceFunctionList = m_interfaceFunctionList st
                        @ [(hash4 (function_externalSignature f), OfFunction f)]\<rparr>"
    from True have run: "addFunctions hash4 (f # fs) st = addFunctions hash4 fs ?st"
      by (simp add: Let_def)
    have img: "externalSignature ` snd ` set (m_interfaceFunctionList ?st)
        = insert (function_externalSignature f)
            (externalSignature ` snd ` set (m_interfaceFunctionList st))"
      by simp
    from True have sigs: "{function_externalSignature f' | f'. f' \<in> set (f # fs) \<and> function_isPartOfExternalInterface f'}
        = insert (function_externalSignature f)
            {function_externalSignature f' | f'. f' \<in> set fs \<and> function_isPartOfExternalInterface f'}"
      by auto
    from Cons.IH [of ?st] show ?thesis
      unfolding run img sigs by (rule subset_insert_shift)
  next
    case False
    then have run: "addFunctions hash4 (f # fs) st = addFunctions hash4 fs st"
      by (auto simp: Let_def)
    have "{function_externalSignature f' | f'. f' \<in> set fs \<and> function_isPartOfExternalInterface f'}
        \<subseteq> {function_externalSignature f' | f'. f' \<in> set (f # fs) \<and> function_isPartOfExternalInterface f'}"
      by auto
    with Cons.IH [of st] show ?thesis unfolding run by (rule subset_weaken)
  qed
qed

lemma addVariables_sources:
  "externalSignature ` snd ` set (m_interfaceFunctionList (addVariables hash4 vs st))
   \<subseteq> externalSignature ` snd ` set (m_interfaceFunctionList st)
     \<union> {variable_externalSignature v | v. v \<in> set vs \<and> variable_isPartOfExternalInterface v}"
proof (induction vs arbitrary: st)
  case Nil
  then show ?case by simp
next
  case (Cons v vs)
  show ?case
  proof (cases "variable_name v \<notin> functionsSeen st \<and> variable_isPartOfExternalInterface v")
    case True
    let ?st = "st\<lparr>functionsSeen := insert (variable_name v) (functionsSeen st),
                 m_interfaceFunctionList := m_interfaceFunctionList st
                   @ [(hash4 (variable_externalSignature v), OfVariable v)]\<rparr>"
    from True have run: "addVariables hash4 (v # vs) st = addVariables hash4 vs ?st"
      by simp
    have img: "externalSignature ` snd ` set (m_interfaceFunctionList ?st)
        = insert (variable_externalSignature v)
            (externalSignature ` snd ` set (m_interfaceFunctionList st))"
      by simp
    from True have sigs: "{variable_externalSignature v' | v'. v' \<in> set (v # vs) \<and> variable_isPartOfExternalInterface v'}
        = insert (variable_externalSignature v)
            {variable_externalSignature v' | v'. v' \<in> set vs \<and> variable_isPartOfExternalInterface v'}"
      by auto
    from Cons.IH [of ?st] show ?thesis
      unfolding run img sigs by (rule subset_insert_shift)
  next
    case False
    then have run: "addVariables hash4 (v # vs) st = addVariables hash4 vs st"
      by auto
    have "{variable_externalSignature v' | v'. v' \<in> set vs \<and> variable_isPartOfExternalInterface v'}
        \<subseteq> {variable_externalSignature v' | v'. v' \<in> set (v # vs) \<and> variable_isPartOfExternalInterface v'}"
      by auto
    with Cons.IH [of st] show ?thesis unfolding run by (rule subset_weaken)
  qed
qed

lemma subset_chain:
  "X3 \<subseteq> X2 \<union> F' \<union> V' \<Longrightarrow> X2 \<subseteq> X1 \<union> Vc \<Longrightarrow> X1 \<subseteq> X0 \<union> Fc \<Longrightarrow>
   Fc \<subseteq> F \<Longrightarrow> Vc \<subseteq> V \<Longrightarrow> F' \<subseteq> F \<Longrightarrow> V' \<subseteq> V \<Longrightarrow> X3 \<subseteq> X0 \<union> F \<union> V"
  by blast

lemma addContracts_sources:
  "externalSignature ` snd ` set (m_interfaceFunctionList (addContracts hash4 contracts st))
   \<subseteq> externalSignature ` snd ` set (m_interfaceFunctionList st)
     \<union> externalFunctionSignatures contracts \<union> externalVariableSignatures contracts"
proof (induction contracts arbitrary: st)
  case Nil
  then show ?case by auto
next
  case (Cons c contracts)
  let ?st1 = "addFunctions hash4 (definedFunctions c) st"
  let ?st2 = "addVariables hash4 (stateVariables c) ?st1"
  have f: "{function_externalSignature f | f. f \<in> set (definedFunctions c) \<and> function_isPartOfExternalInterface f}
      \<subseteq> externalFunctionSignatures (c # contracts)"
    and v: "{variable_externalSignature v | v. v \<in> set (stateVariables c) \<and> variable_isPartOfExternalInterface v}
      \<subseteq> externalVariableSignatures (c # contracts)"
    and m: "externalFunctionSignatures contracts \<subseteq> externalFunctionSignatures (c # contracts)"
      "externalVariableSignatures contracts \<subseteq> externalVariableSignatures (c # contracts)"
    by (auto simp: externalFunctionSignatures_def externalVariableSignatures_def)
  have step: "addContracts hash4 (c # contracts) st = addContracts hash4 contracts ?st2"
    by simp
  show ?case
    unfolding step
    by (rule subset_chain [OF Cons.IH [of ?st2]
          addVariables_sources [of hash4 "stateVariables c" ?st1]
          addFunctions_sources [of hash4 "definedFunctions c" st] f v m])
qed

lemma visibleFunctionSignatures_snoc:
  "visibleFunctionSignatures (ds @ [d]) =
     visibleFunctionSignatures ds
     @ (case d of
          OfFunction f \<Rightarrow>
            if function_isPartOfExternalInterface f then [function_externalSignature f] else []
        | OfVariable v \<Rightarrow> [])"
  by (simp add: visibleFunctionSignatures_def)

lemma visibleVariableNames_snoc:
  "visibleVariableNames (ds @ [d]) =
     visibleVariableNames ds
     @ (case d of
          OfFunction f \<Rightarrow> []
        | OfVariable v \<Rightarrow>
            if variable_isPartOfExternalInterface v then [variable_name v] else [])"
  by (simp add: visibleVariableNames_def)

lemma listedFunctionNames_snoc:
  "listedFunctionNames (ds @ [d]) =
     listedFunctionNames ds
     @ (case d of
          OfFunction f \<Rightarrow> if firstOfSignature ds f then [function_name f] else []
        | OfVariable v \<Rightarrow> [])"
proof -
  have eq: "map (\<lambda>i. case (ds @ [d]) ! i of
                    OfFunction f \<Rightarrow>
                      if firstOfSignature (take i (ds @ [d])) f then [function_name f] else []
                  | OfVariable v \<Rightarrow> []) [0..<length ds]
      = map (\<lambda>i. case ds ! i of
                    OfFunction f \<Rightarrow> if firstOfSignature (take i ds) f then [function_name f] else []
                  | OfVariable v \<Rightarrow> []) [0..<length ds]"
    by (rule map_cong) (simp_all add: nth_append split: FunctionType.split)
  show ?thesis
    by (simp add: listedFunctionNames_def eq split: FunctionType.split)
qed

lemma listedDeclarations_snoc:
  "listedDeclarations (ds @ [d]) =
     listedDeclarations ds @ (if isListed ds d then [d] else [])"
proof -
  have "filter (\<lambda>i. isListed (take i (ds @ [d])) ((ds @ [d]) ! i)) [0..<length ds]
      = filter (\<lambda>i. isListed (take i ds) (ds ! i)) [0..<length ds]"
    by (rule filter_cong) (simp_all add: nth_append)
  moreover have "map (\<lambda>i. (ds @ [d]) ! i) (filter (\<lambda>i. isListed (take i ds) (ds ! i)) [0..<length ds])
      = map (\<lambda>i. ds ! i) (filter (\<lambda>i. isListed (take i ds) (ds ! i)) [0..<length ds])"
    by (rule map_cong) (simp_all add: nth_append)
  ultimately show ?thesis
    by (simp add: listedDeclarations_def)
qed

lemma walk_inv_function:
  assumes "walk_inv st earlier"
  shows "walk_inv
           (if function_isPartOfExternalInterface f
               \<and> function_externalSignature f \<notin> signaturesSeen st
            then \<lparr>functionsSeen = insert (function_name f) (functionsSeen st),
                  signaturesSeen = insert (function_externalSignature f) (signaturesSeen st),
                  m_interfaceFunctionList = m_interfaceFunctionList st
                    @ [(hash4 (function_externalSignature f), OfFunction f)]\<rparr>
            else st)
           (earlier @ [OfFunction f])"
  using assms
  by (auto simp: walk_inv_def visibleFunctionSignatures_snoc visibleVariableNames_snoc
      listedFunctionNames_snoc listedDeclarations_snoc isListed_def firstOfSignature_def)

lemma walk_inv_variable:
  assumes "walk_inv st earlier"
  shows "walk_inv
           (if variable_name v \<notin> functionsSeen st \<and> variable_isPartOfExternalInterface v
            then st\<lparr>functionsSeen := insert (variable_name v) (functionsSeen st),
                    m_interfaceFunctionList := m_interfaceFunctionList st
                      @ [(hash4 (variable_externalSignature v), OfVariable v)]\<rparr>
            else st)
           (earlier @ [OfVariable v])"
  using assms
  by (auto simp: walk_inv_def visibleFunctionSignatures_snoc visibleVariableNames_snoc
      listedFunctionNames_snoc listedDeclarations_snoc isListed_def)

lemma addFunctions_walk:
  "walk_inv st earlier \<Longrightarrow> walk_inv (addFunctions hash4 fs st) (earlier @ map OfFunction fs)"
proof (induction fs arbitrary: st earlier)
  case Nil
  then show ?case by simp
next
  case (Cons f fs)
  let ?st = "if function_isPartOfExternalInterface f
               \<and> function_externalSignature f \<notin> signaturesSeen st
            then \<lparr>functionsSeen = insert (function_name f) (functionsSeen st),
                  signaturesSeen = insert (function_externalSignature f) (signaturesSeen st),
                  m_interfaceFunctionList = m_interfaceFunctionList st
                    @ [(hash4 (function_externalSignature f), OfFunction f)]\<rparr>
            else st"
  have step: "addFunctions hash4 (f # fs) st = addFunctions hash4 fs ?st"
    by (simp add: Let_def)
  from Cons.IH [OF walk_inv_function [OF Cons.prems, of f hash4]]
  show ?case unfolding step by simp
qed

lemma addVariables_walk:
  "walk_inv st earlier \<Longrightarrow> walk_inv (addVariables hash4 vs st) (earlier @ map OfVariable vs)"
proof (induction vs arbitrary: st earlier)
  case Nil
  then show ?case by simp
next
  case (Cons v vs)
  let ?st = "if variable_name v \<notin> functionsSeen st \<and> variable_isPartOfExternalInterface v
            then st\<lparr>functionsSeen := insert (variable_name v) (functionsSeen st),
                    m_interfaceFunctionList := m_interfaceFunctionList st
                      @ [(hash4 (variable_externalSignature v), OfVariable v)]\<rparr>
            else st"
  have step: "addVariables hash4 (v # vs) st = addVariables hash4 vs ?st"
    by simp
  from Cons.IH [OF walk_inv_variable [OF Cons.prems, of v hash4]]
  show ?case unfolding step by simp
qed

lemma addContracts_walk:
  "walk_inv st earlier \<Longrightarrow> walk_inv (addContracts hash4 contracts st) (earlier @ declarations contracts)"
proof (induction contracts arbitrary: st earlier)
  case Nil
  then show ?case by (simp add: declarations_def)
next
  case (Cons c contracts)
  from Cons.IH [OF addVariables_walk [OF addFunctions_walk [OF Cons.prems]],
      of hash4 "stateVariables c" hash4 "definedFunctions c"]
  show ?case by (simp add: declarations_def)
qed

lemma interfaceFunctionList_listed:
  "map snd (interfaceFunctionList hash4 contracts) = listedDeclarations (declarations contracts)"
proof -
  have "walk_inv (\<lparr>functionsSeen = {}, signaturesSeen = {}, m_interfaceFunctionList = []\<rparr>
                    :: 'a InterfaceFunctions) []"
    by (simp add: walk_inv_def visibleFunctionSignatures_def visibleVariableNames_def
        listedFunctionNames_def listedDeclarations_def)
  from addContracts_walk [OF this, of hash4 contracts]
  show ?thesis by (simp add: walk_inv_def interfaceFunctionList_def)
qed

text \<open>
  C2, as stated, fails on the code for the accessors of state variables, which are
  listed by name and not by signature. A derived contract with a function
  \<open>f(uint256)\<close> hides the accessor \<open>f()\<close> of a public state variable of its base: the
  signature \<open>f()\<close> has no entry. And the accessor \<open>f()\<close> of a derived contract does not
  enter the signatures seen, so that the function \<open>f()\<close> of its base is listed as well:
  the signature \<open>f()\<close> has two entries. (The selector is the signature itself here.)
\<close>

theorem interface_functions_counterexample:
  "interfaceFunctionList (\<lambda>signature. signature)
     [\<lparr>definedFunctions = [\<lparr>function_name = ''f'', function_isPartOfExternalInterface = True,
                             function_externalSignature = ''f(uint256)''\<rparr>],
       stateVariables = []\<rparr>,
      \<lparr>definedFunctions = [],
       stateVariables = [\<lparr>variable_name = ''f'', variable_isPartOfExternalInterface = True,
                           variable_externalSignature = ''f()''\<rparr>]\<rparr>]
   = [(''f(uint256)'', OfFunction \<lparr>function_name = ''f'', function_isPartOfExternalInterface = True,
                             function_externalSignature = ''f(uint256)''\<rparr>)]
   \<and> map (externalSignature \<circ> snd) (interfaceFunctionList (\<lambda>signature. signature)
     [\<lparr>definedFunctions = [],
       stateVariables = [\<lparr>variable_name = ''f'', variable_isPartOfExternalInterface = True,
                           variable_externalSignature = ''f()''\<rparr>]\<rparr>,
      \<lparr>definedFunctions = [\<lparr>function_name = ''f'', function_isPartOfExternalInterface = True,
                             function_externalSignature = ''f()''\<rparr>],
       stateVariables = []\<rparr>])
   = [''f()'', ''f()'']"
  by (simp add: interfaceFunctionList_def Let_def)

text \<open>
  C2, amended. For every contract, the interface function list holds, in the order of
  the walk over the linearized base contracts (the functions of a contract, then its
  state variables), exactly these entries: every externally visible function whose
  external signature no externally visible function before it has, and the accessor of
  every externally visible state variable whose name no function listed before it and
  no externally visible state variable before it has. So the entries built from
  functions are exactly one per distinct external signature of the externally visible
  functions (\<open>f(uint)\<close> and \<open>f(uint256)\<close>, both \<open>f(uint256)\<close>, yield a single entry),
  while accessors are listed by name; every entry comes from an externally visible
  function or state variable, and its selector is the hash of its signature. The
  collision check emits a TypeError "Function signature hash collision for" followed by
  the signature of an entry (appended by the \<open>TypeChecker\<close>, thrown by AST.cpp) whenever
  two entries of the list have equal selectors, and nothing otherwise.
\<close>

theorem interface_functions:
  "map snd (interfaceFunctionList hash4 contracts) = listedDeclarations (declarations contracts)
   \<and> set (functionSignatures (interfaceFunctionList hash4 contracts))
     = externalFunctionSignatures contracts
   \<and> distinct (functionSignatures (interfaceFunctionList hash4 contracts))
   \<and> set (map (externalSignature \<circ> snd) (interfaceFunctionList hash4 contracts))
       \<subseteq> externalFunctionSignatures contracts \<union> externalVariableSignatures contracts
   \<and> (\<forall>it \<in> set (interfaceFunctionList hash4 contracts).
         fst it = hash4 (externalSignature (snd it)))
   \<and> (\<exists>new. checkHashCollisions loc (interfaceFunctionList hash4 contracts) {} errors
                = errors @ new
          \<and> (new \<noteq> [] \<longleftrightarrow> \<not> distinct (map fst (interfaceFunctionList hash4 contracts)))
          \<and> (\<forall>e \<in> set new. errorType e = TypeError
                \<and> (\<exists>it \<in> set (interfaceFunctionList hash4 contracts).
                      comment e = ''Function signature hash collision for ''
                                  @ externalSignature (snd it))))
   \<and> (distinct (map fst (interfaceFunctionList hash4 contracts))
        \<longrightarrow> throwHashCollisions loc (interfaceFunctionList hash4 contracts) {} = Inr ())
   \<and> (\<not> distinct (map fst (interfaceFunctionList hash4 contracts))
        \<longrightarrow> (\<exists>it \<in> set (interfaceFunctionList hash4 contracts).
              throwHashCollisions loc (interfaceFunctionList hash4 contracts) {}
                = Inl (Thrown (createTypeError loc
                    (''Function signature hash collision for '' @ externalSignature (snd it))))))"
proof -
  let ?st0 = "\<lparr>functionsSeen = {}, signaturesSeen = {}, m_interfaceFunctionList = []\<rparr>
                :: 'a InterfaceFunctions"
  let ?L = "interfaceFunctionList hash4 contracts"
  have inv0: "seen_inv ?st0" by (simp add: seen_inv_def)
  from addContracts_inv [OF inv0, of hash4 contracts]
  have a: "set (functionSignatures ?L) = externalFunctionSignatures contracts"
    and b: "distinct (functionSignatures ?L)"
    by (auto simp: seen_inv_def interfaceFunctionList_def)
  from addContracts_sources [of hash4 contracts ?st0]
  have c: "set (map (externalSignature \<circ> snd) ?L)
       \<subseteq> externalFunctionSignatures contracts \<union> externalVariableSignatures contracts"
    by (simp add: interfaceFunctionList_def image_comp)
  have "hashed hash4 (m_interfaceFunctionList ?st0)" by (simp add: hashed_def)
  then have "hashed hash4 ?L"
    unfolding interfaceFunctionList_def by (rule addContracts_hashed)
  then have d: "\<forall>it \<in> set ?L. fst it = hash4 (externalSignature (snd it))"
    by (simp add: hashed_def)
  from checkHashCollisions_errors [of loc ?L "{}" errors]
  have e: "\<exists>new. checkHashCollisions loc ?L {} errors = errors @ new
          \<and> (new \<noteq> [] \<longleftrightarrow> \<not> distinct (map fst ?L))
          \<and> (\<forall>e \<in> set new. errorType e = TypeError
                \<and> (\<exists>it \<in> set ?L. comment e = ''Function signature hash collision for ''
                                  @ externalSignature (snd it)))"
    by (auto simp: collision_message_def)
  have f: "distinct (map fst ?L) \<longrightarrow> throwHashCollisions loc ?L {} = Inr ()"
    by (simp add: throwHashCollisions_Inr)
  have g: "\<not> distinct (map fst ?L)
        \<longrightarrow> (\<exists>it \<in> set ?L. throwHashCollisions loc ?L {}
                = Inl (Thrown (createTypeError loc
                    (''Function signature hash collision for '' @ externalSignature (snd it)))))"
  proof
    assume nd: "\<not> distinct (map fst ?L)"
    then have "throwHashCollisions loc ?L {} \<noteq> Inr ()" by (simp add: throwHashCollisions_Inr)
    then obtain x where "throwHashCollisions loc ?L {} = Inl x"
      by (cases "throwHashCollisions loc ?L {}") auto
    with throwHashCollisions_Inl [OF this]
    show "\<exists>it \<in> set ?L. throwHashCollisions loc ?L {}
                = Inl (Thrown (createTypeError loc
                    (''Function signature hash collision for '' @ externalSignature (snd it))))"
      by (auto simp: collision_message_def)
  qed
  have l: "map snd ?L = listedDeclarations (declarations contracts)"
    by (rule interfaceFunctionList_listed)
  show ?thesis by (intro conjI l a b c d e f g)
qed

theorem interface_functions_witness:
  "map snd (interfaceFunctionList (take 2) example_interface)
     = listedDeclarations (declarations example_interface)
   \<and> map externalSignature (listedDeclarations (declarations example_interface))
     = [''f(uint256)'', ''g(uint8)'', ''x()'', ''g(uint16)'']
   \<and> map (externalSignature \<circ> snd) (interfaceFunctionList (take 2) example_interface)
     = [''f(uint256)'', ''g(uint8)'', ''x()'', ''g(uint16)'']
   \<and> distinct (functionSignatures (interfaceFunctionList (take 2) example_interface))
   \<and> \<not> distinct (map fst (interfaceFunctionList (take 2) example_interface))
   \<and> checkHashCollisions \<lparr>loc_start = 0, loc_end = 90\<rparr>
        (interfaceFunctionList (take 2) example_interface) {} []
       = [createTypeError \<lparr>loc_start = 0, loc_end = 90\<rparr>
            ''Function signature hash collision for g(uint16)'']"
proof -
  have run: "interfaceFunctionList (take 2) example_interface
     = [(''f('', OfFunction \<lparr>function_name = ''f'', function_isPartOfExternalInterface = True,
           function_externalSignature = ''f(uint256)''\<rparr>),
        (''g('', OfFunction \<lparr>function_name = ''g'', function_isPartOfExternalInterface = True,
           function_externalSignature = ''g(uint8)''\<rparr>),
        (''x('', OfVariable \<lparr>variable_name = ''x'', variable_isPartOfExternalInterface = True,
           variable_externalSignature = ''x()''\<rparr>),
        (''g('', OfFunction \<lparr>function_name = ''g'', function_isPartOfExternalInterface = True,
           function_externalSignature = ''g(uint16)''\<rparr>)]"
    by (simp add: interfaceFunctionList_def example_interface_def Let_def)
  from interface_functions
    [of "take 2" example_interface "\<lparr>loc_start = 0, loc_end = 90\<rparr>" "[]"]
  have "map snd (interfaceFunctionList (take 2) example_interface)
          = listedDeclarations (declarations example_interface)"
    and "distinct (functionSignatures (interfaceFunctionList (take 2) example_interface))"
    by blast+
  moreover have "checkHashCollisions \<lparr>loc_start = 0, loc_end = 90\<rparr>
        (interfaceFunctionList (take 2) example_interface) {} []
       = [createTypeError \<lparr>loc_start = 0, loc_end = 90\<rparr>
            ''Function signature hash collision for g(uint16)'']"
    unfolding run by (simp add: typeError_def collision_message_def)
  moreover have "map (externalSignature \<circ> snd) (interfaceFunctionList (take 2) example_interface)
     = [''f(uint256)'', ''g(uint8)'', ''x()'', ''g(uint16)'']"
    and "\<not> distinct (map fst (interfaceFunctionList (take 2) example_interface))"
    unfolding run by simp_all
  moreover have "map externalSignature (listedDeclarations (declarations example_interface))
     = [''f(uint256)'', ''g(uint8)'', ''x()'', ''g(uint16)'']"
    by code_simp
  ultimately show ?thesis by (intro conjI)
qed

end
